theory Spec2Isabelle
  imports Main "HOL-Library.Sublist" "HOL-Library.AList" "HOL-Library.Finite_Map"
begin

section \<open>Errors as values\<close>

text \<open>
  Every JavaScript operation that can throw returns a value of type \<open>error + 'a\<close>;
  \<open>Inl\<close> is the exception. A \<^verbatim>\<open>try { ... } catch (err) { ... }\<close> block is a case
  distinction on that value.
\<close>

datatype error = ENOENT | EACCES | SyntaxError

text \<open>
  \<^verbatim>\<open>JSON.parse\<close> is a library function outside the repository. It is a parameter
  \<open>parse\<close> of the model: \<open>parse c = None\<close> when \<^verbatim>\<open>JSON.parse(c)\<close> throws, and
  \<open>parse c = Some v\<close> when it returns \<open>v\<close>.
\<close>

definition JSON_parse :: "(string \<Rightarrow> 'j option) \<Rightarrow> string \<Rightarrow> error + 'j" where
  "JSON_parse parse content =
     (case parse content of None \<Rightarrow> Inl SyntaxError | Some v \<Rightarrow> Inr v)"

section \<open>The file system seen by \<open>cloudSync.js\<close>\<close>

text \<open>
  A directory is the ordered list of its entries (name and content), in the order
  \<^verbatim>\<open>fs.readdirSync\<close> lists them; the file system is a store from directory paths to
  directories. The local and the cloud directory are addressed by their paths, so that
  the two arguments of a call may name the same directory. \<^verbatim>\<open>path.join(dir, file)\<close> is
  the pair \<open>(dir, file)\<close>: a machine identifier is a file-name token, as
  \<^verbatim>\<open>getDefaultMachineId\<close> produces it, and holds no path separator. Entries are regular
  files that can be read and written.
\<close>

type_synonym dir = "(string \<times> string) list"

type_synonym filesystem = "(string \<times> dir) list"

definition file_at :: "filesystem \<Rightarrow> string \<Rightarrow> string \<Rightarrow> string option" where
  "file_at fs d n = (case map_of fs d of None \<Rightarrow> None | Some entries \<Rightarrow> map_of entries n)"

definition existsSync_dir :: "filesystem \<Rightarrow> string \<Rightarrow> bool" where
  "existsSync_dir fs d = (map_of fs d \<noteq> None)"

definition existsSync_file :: "filesystem \<Rightarrow> string \<times> string \<Rightarrow> bool" where
  "existsSync_file fs p = (file_at fs (fst p) (snd p) \<noteq> None)"

text \<open>\<^verbatim>\<open>fs.mkdirSync(d, { recursive: true })\<close>: an existing directory is left alone.\<close>

definition mkdirSync :: "filesystem \<Rightarrow> string \<Rightarrow> filesystem" where
  "mkdirSync fs d = (if existsSync_dir fs d then fs else AList.update d [] fs)"

definition readdirSync :: "filesystem \<Rightarrow> string \<Rightarrow> error + string list" where
  "readdirSync fs d = (case map_of fs d of None \<Rightarrow> Inl ENOENT | Some entries \<Rightarrow> Inr (map fst entries))"

definition readFileSync :: "filesystem \<Rightarrow> string \<times> string \<Rightarrow> error + string" where
  "readFileSync fs p = (case file_at fs (fst p) (snd p) of None \<Rightarrow> Inl ENOENT | Some c \<Rightarrow> Inr c)"

definition copyFileSync :: "filesystem \<Rightarrow> string \<times> string \<Rightarrow> string \<times> string \<Rightarrow> error + filesystem" where
  "copyFileSync fs src dst =
     (case readFileSync fs src of
        Inl e \<Rightarrow> Inl e
      | Inr c \<Rightarrow>
          (case map_of fs (fst dst) of
             None \<Rightarrow> Inl ENOENT
           | Some entries \<Rightarrow> Inr (AList.update (fst dst) (AList.update (snd dst) c entries) fs)))"

section \<open>\<open>cloudSync.js\<close>\<close>

definition usage_file :: "string \<Rightarrow> string" where
  "usage_file machineId = ''usage-'' @ machineId @ ''.json''"

definition syncToCloud :: "filesystem \<Rightarrow> string \<Rightarrow> string \<Rightarrow> string \<Rightarrow> error + filesystem" where
  "syncToCloud fs localDataDir cloudDir machineId =
     (let localFile = (localDataDir, usage_file machineId);
          cloudFile = (cloudDir, usage_file machineId);
          fs1 = (if \<not> existsSync_dir fs cloudDir then mkdirSync fs cloudDir else fs)
      in if existsSync_file fs1 localFile then copyFileSync fs1 localFile cloudFile else Inr fs1)"

text \<open>The body of the \<^verbatim>\<open>try\<close> block of \<^verbatim>\<open>syncFromCloud\<close>: read, validate, copy.\<close>

definition pull_file ::
  "(string \<Rightarrow> 'j option) \<Rightarrow> filesystem \<Rightarrow> string \<times> string \<Rightarrow> string \<times> string \<Rightarrow> error + filesystem" where
  "pull_file parse fs cloudFile localFile =
     (case readFileSync fs cloudFile of
        Inl e \<Rightarrow> Inl e
      | Inr content \<Rightarrow>
          (case JSON_parse parse content of
             Inl e \<Rightarrow> Inl e
           | Inr v \<Rightarrow> copyFileSync fs cloudFile localFile))"

text \<open>
  The \<^verbatim>\<open>for (const file of files)\<close> loop. The \<^verbatim>\<open>catch\<close> branch logs and goes on
  with the next file; the file system is the one before the \<^verbatim>\<open>try\<close>, since the copy is
  the last statement of the block.
\<close>

fun pull_files ::
  "(string \<Rightarrow> 'j option) \<Rightarrow> string \<Rightarrow> string \<Rightarrow> string \<Rightarrow> string list \<Rightarrow> filesystem \<Rightarrow> filesystem" where
  "pull_files parse localDataDir cloudDir machineId [] fs = fs"
| "pull_files parse localDataDir cloudDir machineId (file # files) fs =
     (if file = usage_file machineId then pull_files parse localDataDir cloudDir machineId files fs
      else
        (case pull_file parse fs (cloudDir, file) (localDataDir, file) of
           Inl err \<Rightarrow> pull_files parse localDataDir cloudDir machineId files fs
         | Inr fs' \<Rightarrow> pull_files parse localDataDir cloudDir machineId files fs'))"

definition syncFromCloud ::
  "(string \<Rightarrow> 'j option) \<Rightarrow> filesystem \<Rightarrow> string \<Rightarrow> string \<Rightarrow> string \<Rightarrow> error + filesystem" where
  "syncFromCloud parse fs localDataDir cloudDir machineId =
     (if \<not> existsSync_dir fs cloudDir then Inr fs
      else
        (let fs1 = (if \<not> existsSync_dir fs localDataDir then mkdirSync fs localDataDir else fs)
         in case readdirSync fs1 cloudDir of
              Inl e \<Rightarrow> Inl e
            | Inr entries \<Rightarrow>
                Inr (pull_files parse localDataDir cloudDir machineId
                       (filter (\<lambda>f. prefix ''usage-'' f \<and> suffix ''.json'' f) entries) fs1)))"

definition syncWithCloud ::
  "(string \<Rightarrow> 'j option) \<Rightarrow> filesystem \<Rightarrow> string \<Rightarrow> string \<Rightarrow> string \<Rightarrow> error + filesystem" where
  "syncWithCloud parse fs localDataDir cloudDir machineId =
     (case syncToCloud fs localDataDir cloudDir machineId of
        Inl e \<Rightarrow> Inl e
      | Inr fs1 \<Rightarrow> syncFromCloud parse fs1 localDataDir cloudDir machineId)"

section \<open>The data of \<open>sync.js\<close>\<close>

text \<open>
  A property of a session object that holds a string when it is present: it may be
  absent (\<^verbatim>\<open>undefined\<close>), \<^verbatim>\<open>null\<close> or a string.
\<close>

datatype str_prop = Undefined | Null | Str string

text \<open>Truthiness, as \<^verbatim>\<open>||\<close>, \<^verbatim>\<open>&&\<close> and \<^verbatim>\<open>!\<close> test it: the empty string is falsy.\<close>

fun truthy :: "str_prop \<Rightarrow> bool" where
  "truthy Undefined = False"
| "truthy Null = False"
| "truthy (Str s) = (s \<noteq> [])"

text \<open>The conversion to a string that a template literal performs.\<close>

fun to_string :: "str_prop \<Rightarrow> string" where
  "to_string Undefined = ''undefined''"
| "to_string Null = ''null''"
| "to_string (Str s) = s"

text \<open>
  A JSON value, as \<^verbatim>\<open>JSON.parse\<close> yields it. The numbers are of any type with a zero:
  of a number, \<^verbatim>\<open>sync\<close> can only test whether it is zero.
\<close>

datatype 'n json =
  JNull | JBool bool | JNumber 'n | JString string | JArray "'n json list"
  | JObject "(string \<times> 'n json) list"

fun truthy_json :: "'n::zero json \<Rightarrow> bool" where
  "truthy_json JNull = False"
| "truthy_json (JBool b) = b"
| "truthy_json (JNumber n) = (n \<noteq> 0)"
| "truthy_json (JString s) = (s \<noteq> [])"
| "truthy_json (JArray xs) = True"
| "truthy_json (JObject ps) = True"

text \<open>The value of a string property as a JSON value; an absent property has none.\<close>

fun prop_json :: "str_prop \<Rightarrow> 'n json option" where
  "prop_json Undefined = None"
| "prop_json Null = Some JNull"
| "prop_json (Str s) = Some (JString s)"

text \<open>
  A raw session object of the usage tool. The properties that \<^verbatim>\<open>sync\<close> reads by name
  are fields; \<open>other\<close> lists all the remaining own properties (token counts, cost,
  timestamps) with their values, which the spread \<^verbatim>\<open>...session\<close> copies.
\<close>

record 'n session =
  sessionId :: str_prop
  id_field :: str_prop
  projectPath :: str_prop
  startTime :: str_prop
  other :: "(string \<times> 'n json) list"

text \<open>A stored record: \<^verbatim>\<open>{ ...session, projectPath, projectName, syncedAt }\<close>.\<close>

record 'n stored = "'n session" +
  projectName :: string
  syncedAt :: string

record sync_event =
  timestamp :: string
  newSessions :: nat
  updatedSessions :: nat
  totalSessions :: nat

text \<open>
  The content of a data file: \<^verbatim>\<open>{ sessions, syncs, lastSync }\<close>. Of the object
  \<^verbatim>\<open>sessions\<close> a record set holds the own properties, a finite map from session
  identifiers to stored records: they are what \<^verbatim>\<open>JSON.stringify\<close>, \<^verbatim>\<open>JSON.parse\<close>,
  the spread \<^verbatim>\<open>{ ...existing.sessions }\<close> and \<^verbatim>\<open>Object.keys\<close> see of it.
  \<^verbatim>\<open>lastSync\<close> is absent from the empty record set that \<^verbatim>\<open>loadExistingData\<close> makes
  up. \<^verbatim>\<open>JSON.parse\<close> of a data file is the parameter \<open>parse\<close>, which yields a record
  set or fails.
\<close>

record 'n recordset =
  sessions :: "(string, 'n stored) fmap"
  syncs :: "sync_event list"
  lastSync :: "string option"

text \<open>What \<^verbatim>\<open>sync\<close> returns: \<^verbatim>\<open>{ ...data, machineId }\<close>.\<close>

record 'n sync_result = "'n recordset" +
  machineId_field :: string

text \<open>
  The parsed output of the usage tool: an object whose property \<^verbatim>\<open>sessions\<close> is a
  sequence of session objects, or is absent.
\<close>

datatype 'n ccusage_output = Output (output_sessions: "'n session list option")

section \<open>The data directory of \<open>sync.js\<close>\<close>

text \<open>
  \<open>sync.js\<close> works on the one directory \<^verbatim>\<open>DATA_DIR\<close>. It is absent, or holds for
  every file name the state of that file: missing, present but not readable (reading
  it throws), or present with a content. Writing a file succeeds in an existing
  directory.
\<close>

datatype file_state = Missing | Unreadable | Contents string

type_synonym data_dir = "(string \<Rightarrow> file_state) option"

definition data_existsSync :: "data_dir \<Rightarrow> string \<Rightarrow> bool" where
  "data_existsSync dd f = (case dd of None \<Rightarrow> False | Some files \<Rightarrow> files f \<noteq> Missing)"

definition data_readFileSync :: "data_dir \<Rightarrow> string \<Rightarrow> error + string" where
  "data_readFileSync dd f =
     (case dd of
        None \<Rightarrow> Inl ENOENT
      | Some files \<Rightarrow>
          (case files f of Missing \<Rightarrow> Inl ENOENT | Unreadable \<Rightarrow> Inl EACCES | Contents c \<Rightarrow> Inr c))"

definition data_mkdirSync :: "data_dir \<Rightarrow> data_dir" where
  "data_mkdirSync dd = (case dd of None \<Rightarrow> Some (\<lambda>f. Missing) | Some files \<Rightarrow> Some files)"

definition data_writeFileSync :: "data_dir \<Rightarrow> string \<Rightarrow> string \<Rightarrow> error + data_dir" where
  "data_writeFileSync dd f content =
     (case dd of None \<Rightarrow> Inl ENOENT | Some files \<Rightarrow> Inr (Some (files(f := Contents content))))"

section \<open>\<open>sync.js\<close>\<close>

definition getDataFile :: "string \<Rightarrow> string" where
  "getDataFile machineId = usage_file machineId"

fun decodeProjectPath :: "str_prop \<Rightarrow> str_prop" where
  "decodeProjectPath (Str s) =
     (if s = [] \<or> \<not> prefix ''-'' s then Null
      else Str (map (\<lambda>c. if c = CHR ''-'' then CHR ''/'' else c) (CHR ''/'' # tl s)))"
| "decodeProjectPath p = Null"

definition getProjectName :: "str_prop \<Rightarrow> string" where
  "getProjectName path_prop =
     (if \<not> truthy path_prop then ''Unknown''
      else
        (let path = to_string path_prop;
             popped = rev (takeWhile (\<lambda>c. c \<noteq> CHR ''/'') (rev path))
         in if popped \<noteq> [] then popped else path))"

definition empty_recordset :: "'n recordset" where
  "empty_recordset = \<lparr>sessions = fmempty, syncs = [], lastSync = None\<rparr>"

text \<open>
  The \<^verbatim>\<open>try\<close> block of \<^verbatim>\<open>loadExistingData\<close>: \<open>Inr (Some r)\<close> when it returns \<open>r\<close>,
  \<open>Inr None\<close> when control leaves it at its end, \<open>Inl e\<close> when it throws.
\<close>

definition load_try ::
  "(string \<Rightarrow> 'n recordset option) \<Rightarrow> data_dir \<Rightarrow> string option \<Rightarrow> error + 'n recordset option" where
  "load_try parse dd dataFile =
     (case dataFile of
        None \<Rightarrow> Inr None
      | Some f \<Rightarrow>
          (if data_existsSync dd f then
             (case data_readFileSync dd f of
                Inl e \<Rightarrow> Inl e
              | Inr content \<Rightarrow>
                  (case JSON_parse parse content of Inl e \<Rightarrow> Inl e | Inr r \<Rightarrow> Inr (Some r)))
           else Inr None))"

definition loadExistingData ::
  "(string \<Rightarrow> 'n recordset option) \<Rightarrow> data_dir \<Rightarrow> string \<Rightarrow> error + 'n recordset" where
  "loadExistingData parse dd machineId =
     (let dataFile = (if machineId \<noteq> [] then Some (getDataFile machineId) else None)
      in case load_try parse dd dataFile of
           Inr (Some r) \<Rightarrow> Inr r
         | Inr None \<Rightarrow> Inr empty_recordset
         | Inl err \<Rightarrow> Inr empty_recordset)"

definition saveData ::
  "('n recordset \<Rightarrow> string) \<Rightarrow> data_dir \<Rightarrow> 'n recordset \<Rightarrow> string \<Rightarrow> error + data_dir" where
  "saveData stringify dd data machineId =
     (let dd1 = (if dd = None then data_mkdirSync dd else dd)
      in data_writeFileSync dd1 (getDataFile machineId) (stringify data))"

text \<open>
  \<^verbatim>\<open>runCcusage\<close>: \<open>execSync\<close> is the outcome of running the usage tool, its output or
  the exception; \<open>None\<close> is the \<^verbatim>\<open>null\<close> that the \<^verbatim>\<open>catch\<close> branch returns.
\<close>

definition runCcusage ::
  "(string \<Rightarrow> 'n ccusage_output option) \<Rightarrow> error + string \<Rightarrow> 'n ccusage_output option" where
  "runCcusage parse_output execSync =
     (case execSync of
        Inl err \<Rightarrow> None
      | Inr output \<Rightarrow>
          (case JSON_parse parse_output output of Inl err \<Rightarrow> None | Inr v \<Rightarrow> Some v))"

text \<open>Line 173: the identifier under which a session is stored.\<close>

definition session_id :: "'n session \<Rightarrow> string" where
  "session_id session =
     (if truthy (sessionId session) then to_string (sessionId session)
      else if truthy (id_field session) then to_string (id_field session)
      else to_string (projectPath session) @ ''-'' @ to_string (startTime session))"

text \<open>Lines 180 to 182.\<close>

definition session_projectPath :: "'n session \<Rightarrow> str_prop" where
  "session_projectPath session =
     (if truthy (projectPath session) \<and> projectPath session \<noteq> Str ''Unknown Project''
      then projectPath session
      else decodeProjectPath (sessionId session))"

text \<open>Lines 184 to 189; \<open>now\<close> is the reading of the clock.\<close>

definition store_session :: "string \<Rightarrow> 'n session \<Rightarrow> 'n stored" where
  "store_session now session =
     \<lparr>sessionId = sessionId session, id_field = id_field session,
      projectPath = session_projectPath session, startTime = startTime session,
      other = other session,
      projectName = getProjectName (session_projectPath session), syncedAt = now\<rparr>"

text \<open>
  The object \<^verbatim>\<open>sessions\<close> that line 168 builds, \<^verbatim>\<open>{ ...existing.sessions }\<close>: its own
  properties, and its prototype. The prototype is \<^verbatim>\<open>Object.prototype\<close> (\<open>None\<close>)
  until an assignment \<^verbatim>\<open>sessions['__proto__'] = r\<close> replaces it with the stored record
  \<open>r\<close> (\<open>Some r\<close>), an object literal whose own prototype is \<^verbatim>\<open>Object.prototype\<close>.
\<close>

record 'n sessions_object =
  own :: "(string, 'n stored) fmap"
  proto :: "'n stored option"

text \<open>The properties of \<^verbatim>\<open>Object.prototype\<close>; the value of each is truthy.\<close>

definition Object_prototype_properties :: "string list" where
  "Object_prototype_properties =
     [''constructor'', ''__defineGetter__'', ''__defineSetter__'', ''hasOwnProperty'',
      ''__lookupGetter__'', ''__lookupSetter__'', ''isPrototypeOf'', ''propertyIsEnumerable'',
      ''toString'', ''valueOf'', ''__proto__'', ''toLocaleString'']"

text \<open>
  The own property \<open>name\<close> of a stored record
  \<^verbatim>\<open>{ ...session, projectPath, projectName, syncedAt }\<close>, if it has one.
\<close>

definition stored_property :: "'n stored \<Rightarrow> string \<Rightarrow> 'n json option" where
  "stored_property r name =
     (if name = ''projectPath'' then prop_json (projectPath r)
      else if name = ''projectName'' then Some (JString (projectName r))
      else if name = ''syncedAt'' then Some (JString (syncedAt r))
      else if name = ''sessionId'' then prop_json (sessionId r)
      else if name = ''id'' then prop_json (id_field r)
      else if name = ''startTime'' then prop_json (startTime r)
      else map_of (other r) name)"

text \<open>
  Whether \<^verbatim>\<open>sessions[name]\<close> is truthy. An own property is a stored record, an object.
  Otherwise the lookup goes up the prototype chain: to a record that has replaced the
  prototype, then to \<^verbatim>\<open>Object.prototype\<close>.
\<close>

definition get_truthy :: "'n::zero sessions_object \<Rightarrow> string \<Rightarrow> bool" where
  "get_truthy obj name =
     (case fmlookup (own obj) name of
        Some r \<Rightarrow> True
      | None \<Rightarrow>
          (case (case proto obj of None \<Rightarrow> None | Some r \<Rightarrow> stored_property r name) of
             Some v \<Rightarrow> truthy_json v
           | None \<Rightarrow> name \<in> set Object_prototype_properties))"

text \<open>
  Whether an assignment to \<^verbatim>\<open>sessions['__proto__']\<close>, for an object without that own
  property, reaches the setter of \<^verbatim>\<open>Object.prototype\<close>: no object before it on the
  prototype chain has the property.
\<close>

definition reaches_proto_setter :: "'n sessions_object \<Rightarrow> bool" where
  "reaches_proto_setter obj =
     (case proto obj of None \<Rightarrow> True | Some r \<Rightarrow> stored_property r ''__proto__'' = None)"

text \<open>
  The assignment \<^verbatim>\<open>sessions[name] = r\<close> of a stored record. It updates an own property
  or creates one, except that for \<^verbatim>\<open>'__proto__'\<close> the setter of \<^verbatim>\<open>Object.prototype\<close>,
  when reached, makes \<open>r\<close> the prototype and creates no property.
\<close>

definition set_property :: "'n sessions_object \<Rightarrow> string \<Rightarrow> 'n stored \<Rightarrow> 'n sessions_object" where
  "set_property obj name r =
     (if fmlookup (own obj) name \<noteq> None then obj\<lparr>own := fmupd name r (own obj)\<rparr>
      else if name = ''__proto__'' \<and> reaches_proto_setter obj then obj\<lparr>proto := Some r\<rparr>
      else obj\<lparr>own := fmupd name r (own obj)\<rparr>)"

text \<open>
  The loop of lines 172 to 190 over the state \<^verbatim>\<open>(sessions, newCount, updatedCount)\<close>.
  The clock is the sequence of its readings during the cycle: the body for the session
  at position \<open>k\<close> reads \<open>clock k\<close>.
\<close>

fun merge_sessions ::
  "(nat \<Rightarrow> string) \<Rightarrow> nat \<Rightarrow> 'n::zero session list \<Rightarrow>
   'n sessions_object \<times> nat \<times> nat \<Rightarrow> 'n sessions_object \<times> nat \<times> nat" where
  "merge_sessions clock k [] state = state"
| "merge_sessions clock k (session # rest) (obj, newCount, updatedCount) =
     (let sid = session_id session;
          counts = (if \<not> get_truthy obj sid then (newCount + 1, updatedCount)
                    else (newCount, updatedCount + 1))
      in merge_sessions clock (Suc k) rest
           (set_property obj sid (store_session (clock k) session), fst counts, snd counts))"

text \<open>
  Lines 168 to 204: the object \<^verbatim>\<open>data\<close>. \<^verbatim>\<open>Object.keys(sessions).length\<close> counts the
  own properties.
\<close>

definition sync_data ::
  "(nat \<Rightarrow> string) \<Rightarrow> 'n::zero recordset \<Rightarrow> 'n session list \<Rightarrow> 'n recordset" where
  "sync_data clock existing incoming =
     (case merge_sessions clock 0 incoming (\<lparr>own = sessions existing, proto = None\<rparr>, 0, 0) of
        (obj, newCount, updatedCount) \<Rightarrow>
          \<lparr>sessions = own obj,
           syncs = syncs existing @
             [\<lparr>timestamp = clock (length incoming), newSessions = newCount,
               updatedSessions = updatedCount, totalSessions = fcard (fmdom (own obj))\<rparr>],
           lastSync = Some (clock (Suc (length incoming)))\<rparr>)"

definition with_machineId :: "'n recordset \<Rightarrow> string \<Rightarrow> 'n sync_result" where
  "with_machineId r m =
     \<lparr>sessions = sessions r, syncs = syncs r, lastSync = lastSync r, machineId_field = m\<rparr>"

text \<open>
  \<^verbatim>\<open>sync\<close> from line 157 on, with the machine identifier resolved (the first-run
  prompt and the migration of an old data file come before). The parameters are the
  two parsers, \<^verbatim>\<open>JSON.stringify\<close>, the clock and the outcome of running the usage
  tool. The function returns the result object and the data directory it leaves. The
  test \<^verbatim>\<open>!ccusageData || !ccusageData.sessions\<close> is the first two cases on
  \<open>ccusageData\<close>.
\<close>

definition sync ::
  "(string \<Rightarrow> 'n::zero recordset option) \<Rightarrow> ('n recordset \<Rightarrow> string) \<Rightarrow> (nat \<Rightarrow> string) \<Rightarrow>
   (string \<Rightarrow> 'n ccusage_output option) \<Rightarrow> error + string \<Rightarrow>
   data_dir \<Rightarrow> string \<Rightarrow> error + ('n sync_result \<times> data_dir)" where
  "sync parse stringify clock parse_output execSync dd machineId =
     (case loadExistingData parse dd machineId of
        Inl e \<Rightarrow> Inl e
      | Inr existing \<Rightarrow>
          (let ccusageData = runCcusage parse_output execSync
           in case ccusageData of
                None \<Rightarrow> Inr (with_machineId existing machineId, dd)
              | Some (Output None) \<Rightarrow> Inr (with_machineId existing machineId, dd)
              | Some (Output (Some incoming)) \<Rightarrow>
                  (let data = sync_data clock existing incoming
                   in case saveData stringify dd data machineId of
                        Inl e \<Rightarrow> Inl e
                      | Inr dd' \<Rightarrow> Inr (with_machineId data machineId, dd'))))"

section \<open>Properties of the file-system operations\<close>

lemma file_at_update:
  "map_of fs d = Some entries \<Longrightarrow>
   file_at (AList.update d (AList.update n c entries) fs) d' n' =
     (if d' = d \<and> n' = n then Some c else file_at fs d' n')"
  by (simp add: file_at_def update_conv')

lemma existsSync_dir_update:
  "existsSync_dir (AList.update d x fs) d' = (d' = d \<or> existsSync_dir fs d')"
  by (simp add: existsSync_dir_def update_conv')

lemma file_at_mkdirSync: "file_at (mkdirSync fs d) d' n = file_at fs d' n"
  by (auto simp: mkdirSync_def file_at_def existsSync_dir_def update_conv')

lemma existsSync_dir_mkdirSync:
  "existsSync_dir (mkdirSync fs d) d' = (d' = d \<or> existsSync_dir fs d')"
  by (auto simp: mkdirSync_def existsSync_dir_update)

lemma copyFileSync_ok:
  assumes "file_at fs (fst src) (snd src) = Some c" and "existsSync_dir fs (fst dst)"
  shows "\<exists>fs'. copyFileSync fs src dst = Inr fs' \<and>
           (\<forall>d n. file_at fs' d n = (if d = fst dst \<and> n = snd dst then Some c else file_at fs d n)) \<and>
           (\<forall>d. existsSync_dir fs' d = existsSync_dir fs d)"
  using assms
  by (auto simp: copyFileSync_def readFileSync_def existsSync_dir_def update_conv' file_at_update)

lemma copyFileSync_Inr:
  assumes "copyFileSync fs src dst = Inr fs'"
  shows "\<exists>c. file_at fs (fst src) (snd src) = Some c \<and>
           (\<forall>d n. file_at fs' d n = (if d = fst dst \<and> n = snd dst then Some c else file_at fs d n)) \<and>
           (\<forall>d. existsSync_dir fs' d = existsSync_dir fs d)"
  using assms
  by (auto simp: copyFileSync_def readFileSync_def existsSync_dir_def update_conv' file_at_update
           split: option.splits if_splits)

lemma pull_file_Inr:
  assumes "pull_file parse fs (c, f) (l, f) = Inr fs'"
  shows "(\<exists>x. file_at fs c f = Some x \<and> parse x \<noteq> None) \<and>
         (\<forall>d n. file_at fs' d n = (if d = l \<and> n = f then file_at fs c f else file_at fs d n)) \<and>
         (\<forall>d. existsSync_dir fs' d = existsSync_dir fs d)"
proof -
  from assms obtain x where x: "readFileSync fs (c, f) = Inr x" and p: "parse x \<noteq> None"
    and cp: "copyFileSync fs (c, f) (l, f) = Inr fs'"
    by (auto simp: pull_file_def JSON_parse_def split: sum.splits option.splits)
  from x have fx: "file_at fs c f = Some x"
    by (auto simp: readFileSync_def split: option.splits)
  from copyFileSync_Inr[OF cp] fx p show ?thesis by auto
qed

lemma pull_file_ok:
  assumes "file_at fs c f = Some x" and "parse x \<noteq> None" and "existsSync_dir fs l"
  shows "\<exists>fs'. pull_file parse fs (c, f) (l, f) = Inr fs'"
  using assms copyFileSync_ok[of fs "(c, f)" x "(l, f)"]
  by (auto simp: pull_file_def JSON_parse_def readFileSync_def split: option.splits)

lemma pull_file_Inl:
  assumes "existsSync_dir fs l" and "pull_file parse fs (c, f) (l, f) = Inl e"
  shows "\<not> (\<exists>x. file_at fs c f = Some x \<and> parse x \<noteq> None)"
proof
  assume "\<exists>x. file_at fs c f = Some x \<and> parse x \<noteq> None"
  then obtain x where x: "file_at fs c f = Some x" "parse x \<noteq> None" by blast
  from pull_file_ok[of fs c f x parse l] x assms show False by simp
qed

lemma pull_files_spec:
  assumes "existsSync_dir fs l"
  shows "(\<forall>d n. file_at (pull_files parse l c m files fs) d n =
           (if d = l \<and> n \<in> set files \<and> n \<noteq> usage_file m \<and>
               (\<exists>x. file_at fs c n = Some x \<and> parse x \<noteq> None)
            then file_at fs c n else file_at fs d n)) \<and>
         (\<forall>d. existsSync_dir (pull_files parse l c m files fs) d = existsSync_dir fs d)"
  using assms
proof (induction files arbitrary: fs)
  case Nil
  then show ?case by simp
next
  case (Cons f files)
  show ?case
  proof (cases "f = usage_file m")
    case True
    with Cons show ?thesis by auto
  next
    case False
    show ?thesis
    proof (cases "pull_file parse fs (c, f) (l, f)")
      case (Inl e)
      from pull_file_Inl[OF Cons.prems Inl] Cons.IH[OF Cons.prems] Inl False
      show ?thesis by auto
    next
      case (Inr fs')
      note step = pull_file_Inr[OF Inr]
      from step Cons.prems have ex: "existsSync_dir fs' l" by simp
      have cl: "\<And>n. file_at fs' c n = file_at fs c n"
        using step by auto
      from Cons.IH[OF ex] Inr False step cl show ?thesis
        by auto
    qed
  qed
qed

lemma usage_file_inj: "usage_file a = usage_file b \<longleftrightarrow> a = b"
  by (simp add: usage_file_def)

lemma usage_file_pattern: "prefix ''usage-'' (usage_file m) \<and> suffix ''.json'' (usage_file m)"
  unfolding usage_file_def by (metis prefixI suffixI append.assoc)

lemma syncToCloud_spec:
  "\<exists>fs'. syncToCloud fs l c m = Inr fs' \<and>
     (\<forall>d. existsSync_dir fs' d = (d = c \<or> existsSync_dir fs d)) \<and>
     (\<forall>d n. file_at fs' d n =
        (if d = c \<and> n = usage_file m \<and> file_at fs l n \<noteq> None then file_at fs l n
         else file_at fs d n))"
proof -
  define fs1 where "fs1 = (if \<not> existsSync_dir fs c then mkdirSync fs c else fs)"
  have ex1: "\<And>d. existsSync_dir fs1 d = (d = c \<or> existsSync_dir fs d)"
    by (auto simp: fs1_def existsSync_dir_mkdirSync)
  have f1: "\<And>d n. file_at fs1 d n = file_at fs d n"
    by (simp add: fs1_def file_at_mkdirSync)
  show ?thesis
  proof (cases "file_at fs l (usage_file m)")
    case None
    then have "syncToCloud fs l c m = Inr fs1"
      by (simp add: syncToCloud_def Let_def existsSync_file_def file_at_mkdirSync fs1_def)
    with None ex1 f1 show ?thesis by simp
  next
    case (Some x)
    then have eq: "syncToCloud fs l c m = copyFileSync fs1 (l, usage_file m) (c, usage_file m)"
      by (simp add: syncToCloud_def Let_def existsSync_file_def file_at_mkdirSync fs1_def)
    from Some f1 have src: "file_at fs1 (fst (l, usage_file m)) (snd (l, usage_file m)) = Some x"
      by simp
    from ex1 have dst: "existsSync_dir fs1 (fst (c, usage_file m))" by simp
    from copyFileSync_ok[OF src dst] obtain fs' where
      cp: "copyFileSync fs1 (l, usage_file m) (c, usage_file m) = Inr fs'" and
      fa: "\<forall>d n. file_at fs' d n = (if d = c \<and> n = usage_file m then Some x else file_at fs1 d n)" and
      ex: "\<forall>d. existsSync_dir fs' d = existsSync_dir fs1 d"
      by auto
    from eq cp fa ex ex1 f1 Some show ?thesis by auto
  qed
qed

lemma syncToCloud_nothing_to_push:
  "file_at fs l (usage_file m) = None \<Longrightarrow> existsSync_dir fs c \<Longrightarrow> syncToCloud fs l c m = Inr fs"
  by (simp add: syncToCloud_def Let_def existsSync_file_def)

lemma file_at_listed:
  "file_at fs c n = Some x \<Longrightarrow> readdirSync fs c = Inr entries \<Longrightarrow> n \<in> set entries"
  by (force simp: file_at_def readdirSync_def split: option.splits dest: map_of_SomeD)

lemma syncFromCloud_spec:
  "\<exists>fs'. syncFromCloud parse fs l c m = Inr fs' \<and>
     (\<forall>d n. file_at fs' d n =
        (if d = l \<and> prefix ''usage-'' n \<and> suffix ''.json'' n \<and> n \<noteq> usage_file m \<and>
            (\<exists>x. file_at fs c n = Some x \<and> parse x \<noteq> None)
         then file_at fs c n else file_at fs d n))"
proof (cases "existsSync_dir fs c")
  case False
  then have "\<And>n. file_at fs c n = None"
    by (simp add: existsSync_dir_def file_at_def)
  with False show ?thesis by (simp add: syncFromCloud_def)
next
  case True
  define fs1 where "fs1 = (if \<not> existsSync_dir fs l then mkdirSync fs l else fs)"
  have exl: "existsSync_dir fs1 l"
    by (auto simp: fs1_def existsSync_dir_mkdirSync)
  have exc: "existsSync_dir fs1 c"
    using True by (auto simp: fs1_def existsSync_dir_mkdirSync)
  have f1: "\<And>d n. file_at fs1 d n = file_at fs d n"
    by (simp add: fs1_def file_at_mkdirSync)
  from exc obtain entries where rd: "readdirSync fs1 c = Inr entries"
    by (auto simp: readdirSync_def existsSync_dir_def)
  define files where "files = filter (\<lambda>f. prefix ''usage-'' f \<and> suffix ''.json'' f) entries"
  have res: "syncFromCloud parse fs l c m = Inr (pull_files parse l c m files fs1)"
    using True rd by (simp add: syncFromCloud_def Let_def fs1_def files_def)
  have listed: "\<And>n x. file_at fs c n = Some x \<Longrightarrow> n \<in> set entries"
    using file_at_listed[OF _ rd] f1 by simp
  have "\<forall>d n. file_at (pull_files parse l c m files fs1) d n =
           (if d = l \<and> n \<in> set files \<and> n \<noteq> usage_file m \<and>
               (\<exists>x. file_at fs c n = Some x \<and> parse x \<noteq> None)
            then file_at fs c n else file_at fs d n)"
    using pull_files_spec[OF exl, of parse c m files] unfolding f1 by blast
  then have "\<forall>d n. file_at (pull_files parse l c m files fs1) d n =
        (if d = l \<and> prefix ''usage-'' n \<and> suffix ''.json'' n \<and> n \<noteq> usage_file m \<and>
            (\<exists>x. file_at fs c n = Some x \<and> parse x \<noteq> None)
         then file_at fs c n else file_at fs d n)"
    using listed by (auto simp: files_def)
  with res show ?thesis by simp
qed

section \<open>Properties of the replica exchange\<close>

text \<open>
  Claim C1 (convergence of one exchange cycle). Machine \<open>a\<close>'s local directory holds
  only \<open>a\<close>'s record file, with content \<open>ca\<close>; the shared directory holds only the
  record file of another machine \<open>b\<close>, with content \<open>cb\<close>, which is a record file and
  so parses as JSON. Then \<open>syncWithCloud\<close> returns without error, and afterwards each
  of the two directories holds exactly \<open>a\<close>'s file with content \<open>ca\<close> and \<open>b\<close>'s file
  with content \<open>cb\<close>.
\<close>

theorem exchange_convergence:
  assumes "a \<noteq> b"
    and "\<forall>n. file_at fs l n = (if n = usage_file a then Some ca else None)"
    and "\<forall>n. file_at fs c n = (if n = usage_file b then Some cb else None)"
    and "parse cb \<noteq> None"
  shows "\<exists>fs'. syncWithCloud parse fs l c a = Inr fs' \<and>
           (\<forall>n. file_at fs' c n =
              (if n = usage_file a then Some ca else if n = usage_file b then Some cb else None)) \<and>
           (\<forall>n. file_at fs' l n =
              (if n = usage_file a then Some ca else if n = usage_file b then Some cb else None))"
proof -
  have ab: "usage_file a \<noteq> usage_file b"
    using assms(1) by (simp add: usage_file_inj)
  have lc: "l \<noteq> c"
    using assms(2,3) ab by (metis option.distinct(1))
  obtain fs1 where push: "syncToCloud fs l c a = Inr fs1" and
    f1: "\<forall>d n. file_at fs1 d n =
        (if d = c \<and> n = usage_file a \<and> file_at fs l n \<noteq> None then file_at fs l n
         else file_at fs d n)"
    using syncToCloud_spec[of fs l c a] by blast
  have c1: "\<And>n. file_at fs1 c n =
      (if n = usage_file a then Some ca else if n = usage_file b then Some cb else None)"
    using f1 assms(2,3) ab by simp
  have l1: "\<And>n. file_at fs1 l n = (if n = usage_file a then Some ca else None)"
    using f1 assms(2) lc by simp
  obtain fs2 where pull: "syncFromCloud parse fs1 l c a = Inr fs2" and
    f2: "\<forall>d n. file_at fs2 d n =
        (if d = l \<and> prefix ''usage-'' n \<and> suffix ''.json'' n \<and> n \<noteq> usage_file a \<and>
            (\<exists>x. file_at fs1 c n = Some x \<and> parse x \<noteq> None)
         then file_at fs1 c n else file_at fs1 d n)"
    using syncFromCloud_spec[of parse fs1 l c a] by blast
  have c2: "\<And>n. file_at fs2 c n = file_at fs1 c n"
    using f2 lc by simp
  have l2: "\<And>n. file_at fs2 l n =
      (if n = usage_file a then Some ca else if n = usage_file b then Some cb else None)"
    using f2 c1 l1 ab assms(4) usage_file_pattern[of b] by auto
  from push pull have "syncWithCloud parse fs l c a = Inr fs2"
    by (simp add: syncWithCloud_def)
  with c1 c2 l2 show ?thesis by simp
qed

theorem exchange_convergence_witness:
  "\<exists>fs'. syncWithCloud (\<lambda>s. if s = ''junk'' then None else Some s)
            [(''local'', [(''usage-a.json'', ''{s1}'')]), (''cloud'', [(''usage-b.json'', ''{s3}'')])]
            ''local'' ''cloud'' ''a'' = Inr fs' \<and>
         (\<forall>n. file_at fs' ''cloud'' n =
            (if n = usage_file ''a'' then Some ''{s1}''
             else if n = usage_file ''b'' then Some ''{s3}'' else None)) \<and>
         (\<forall>n. file_at fs' ''local'' n =
            (if n = usage_file ''a'' then Some ''{s1}''
             else if n = usage_file ''b'' then Some ''{s3}'' else None))"
proof -
  let ?fs = "[(''local'', [(''usage-a.json'', ''{s1}'')]), (''cloud'', [(''usage-b.json'', ''{s3}'')])]"
  let ?parse = "\<lambda>s. if s = ''junk'' then None else Some s"
  have h1: "''a'' \<noteq> ''b''" by simp
  have h2: "\<forall>n. file_at ?fs ''local'' n = (if n = usage_file ''a'' then Some ''{s1}'' else None)"
    by (simp add: file_at_def usage_file_def)
  have h3: "\<forall>n. file_at ?fs ''cloud'' n = (if n = usage_file ''b'' then Some ''{s3}'' else None)"
    by (simp add: file_at_def usage_file_def)
  have h4: "?parse ''{s3}'' \<noteq> None" by simp
  from exchange_convergence[where parse = ?parse and cb = "''{s3}''", OF h1 h2 h3] h4
  show ?thesis by blast
qed

text \<open>
  Claim C2 (unconditional push overwrite). If the local file of \<open>m\<close> exists with
  content \<open>x\<close>, \<open>syncToCloud\<close> returns without error and the shared file of \<open>m\<close>
  then has content \<open>x\<close>, whatever the shared directory held before (no content or
  timestamp of the old shared file enters the result); no other file changes. If the
  local file of \<open>m\<close> does not exist, \<open>syncToCloud\<close> returns without error and every file
  of every directory, the shared one included, is as before: the file system is the
  same when the shared directory exists, and otherwise differs by that directory,
  created empty.
\<close>

theorem push_overwrite:
  "(file_at fs l (usage_file m) = Some x \<longrightarrow>
      (\<exists>fs'. syncToCloud fs l c m = Inr fs' \<and> file_at fs' c (usage_file m) = Some x \<and>
         (\<forall>d n. (d, n) \<noteq> (c, usage_file m) \<longrightarrow> file_at fs' d n = file_at fs d n))) \<and>
   (file_at fs l (usage_file m) = None \<longrightarrow>
      (\<exists>fs'. syncToCloud fs l c m = Inr fs' \<and> (\<forall>d n. file_at fs' d n = file_at fs d n) \<and>
         (existsSync_dir fs c \<longrightarrow> fs' = fs)))"
  using syncToCloud_spec[of fs l c m] syncToCloud_nothing_to_push[of fs l m c] by auto

theorem push_overwrite_witness:
  "file_at [(''local'', [(''usage-a.json'', ''new'')]), (''cloud'', [(''usage-a.json'', ''old'')])]
      ''local'' (usage_file ''a'') = Some ''new'' \<and>
   (\<exists>fs'. syncToCloud [(''local'', [(''usage-a.json'', ''new'')]), (''cloud'', [(''usage-a.json'', ''old'')])]
             ''local'' ''cloud'' ''a'' = Inr fs' \<and>
          file_at fs' ''cloud'' (usage_file ''a'') = Some ''new'') \<and>
   file_at [(''local'', []), (''cloud'', [(''usage-a.json'', ''old'')])]
      ''local'' (usage_file ''a'') = None \<and>
   (\<exists>fs'. syncToCloud [(''local'', []), (''cloud'', [(''usage-a.json'', ''old'')])]
             ''local'' ''cloud'' ''a'' = Inr fs' \<and>
          file_at fs' ''cloud'' (usage_file ''a'') = Some ''old'')"
proof -
  let ?fs = "[(''local'', [(''usage-a.json'', ''new'')]), (''cloud'', [(''usage-a.json'', ''old'')])]"
  let ?fse = "[(''local'', []), (''cloud'', [(''usage-a.json'', ''old'')])]"
  have h1: "file_at ?fs ''local'' (usage_file ''a'') = Some ''new''"
    by (simp add: file_at_def usage_file_def)
  have h2: "file_at ?fse ''local'' (usage_file ''a'') = None"
    by (simp add: file_at_def usage_file_def)
  have old: "file_at ?fse ''cloud'' (usage_file ''a'') = Some ''old''"
    by (simp add: file_at_def usage_file_def)
  from push_overwrite[of ?fs "''local''" "''a''" "''new''" "''cloud''"] h1
  have c1: "\<exists>fs'. syncToCloud ?fs ''local'' ''cloud'' ''a'' = Inr fs' \<and>
          file_at fs' ''cloud'' (usage_file ''a'') = Some ''new''"
    by blast
  from push_overwrite[of ?fse "''local''" "''a''" "''new''" "''cloud''"] h2 old
  have c2: "\<exists>fs'. syncToCloud ?fse ''local'' ''cloud'' ''a'' = Inr fs' \<and>
          file_at fs' ''cloud'' (usage_file ''a'') = Some ''old''"
    by auto
  from h1 c1 h2 c2 show ?thesis by blast
qed

text \<open>
  Claim C3 (self-exclusion on pull). \<open>syncFromCloud\<close> returns without error and leaves
  the local file named for \<open>m\<close> exactly as it was (present with the same content, or
  absent), whatever the shared directory holds under that name. It does not read that
  file either: two file systems that differ at most in the local file of \<open>m\<close> give
  results that differ at most in that file.
\<close>

theorem pull_self_exclusion:
  assumes "\<forall>d n. (d, n) \<noteq> (l, usage_file m) \<longrightarrow> file_at fs2 d n = file_at fs d n"
  shows "\<exists>fs' fs2'. syncFromCloud parse fs l c m = Inr fs' \<and>
           syncFromCloud parse fs2 l c m = Inr fs2' \<and>
           file_at fs' l (usage_file m) = file_at fs l (usage_file m) \<and>
           file_at fs2' l (usage_file m) = file_at fs2 l (usage_file m) \<and>
           (\<forall>d n. (d, n) \<noteq> (l, usage_file m) \<longrightarrow> file_at fs2' d n = file_at fs' d n)"
proof -
  obtain fs' where r: "syncFromCloud parse fs l c m = Inr fs'" and
    f: "\<forall>d n. file_at fs' d n =
        (if d = l \<and> prefix ''usage-'' n \<and> suffix ''.json'' n \<and> n \<noteq> usage_file m \<and>
            (\<exists>x. file_at fs c n = Some x \<and> parse x \<noteq> None)
         then file_at fs c n else file_at fs d n)"
    using syncFromCloud_spec[of parse fs l c m] by blast
  obtain fs2' where r2: "syncFromCloud parse fs2 l c m = Inr fs2'" and
    f2: "\<forall>d n. file_at fs2' d n =
        (if d = l \<and> prefix ''usage-'' n \<and> suffix ''.json'' n \<and> n \<noteq> usage_file m \<and>
            (\<exists>x. file_at fs2 c n = Some x \<and> parse x \<noteq> None)
         then file_at fs2 c n else file_at fs2 d n)"
    using syncFromCloud_spec[of parse fs2 l c m] by blast
  have own: "file_at fs' l (usage_file m) = file_at fs l (usage_file m)"
    using f by simp
  have own2: "file_at fs2' l (usage_file m) = file_at fs2 l (usage_file m)"
    using f2 by simp
  have rest: "\<forall>d n. (d, n) \<noteq> (l, usage_file m) \<longrightarrow> file_at fs2' d n = file_at fs' d n"
  proof (intro allI impI)
    fix d n assume dn: "(d, n) \<noteq> (l, usage_file m)"
    show "file_at fs2' d n = file_at fs' d n"
    proof (cases "n = usage_file m")
      case True
      with dn have "d \<noteq> l" by simp
      with f f2 assms dn show ?thesis by simp
    next
      case False
      then have eq: "file_at fs2 c n = file_at fs c n" "file_at fs2 d n = file_at fs d n"
        using assms by simp_all
      have "file_at fs2' d n =
        (if d = l \<and> prefix ''usage-'' n \<and> suffix ''.json'' n \<and> n \<noteq> usage_file m \<and>
            (\<exists>x. file_at fs2 c n = Some x \<and> parse x \<noteq> None)
         then file_at fs2 c n else file_at fs2 d n)"
        using f2 by blast
      also have "\<dots> = file_at fs' d n"
        unfolding eq using f by simp
      finally show ?thesis .
    qed
  qed
  from r r2 own own2 rest show ?thesis by blast
qed

theorem pull_self_exclusion_witness:
  "\<exists>fs' fs2'.
     syncFromCloud (\<lambda>s. if s = ''junk'' then None else Some s)
       [(''local'', [(''usage-a.json'', ''mine'')]), (''cloud'', [(''usage-a.json'', ''stale'')])]
       ''local'' ''cloud'' ''a'' = Inr fs' \<and>
     syncFromCloud (\<lambda>s. if s = ''junk'' then None else Some s)
       [(''local'', [(''usage-a.json'', ''other'')]), (''cloud'', [(''usage-a.json'', ''stale'')])]
       ''local'' ''cloud'' ''a'' = Inr fs2' \<and>
     file_at fs' ''local'' (usage_file ''a'') = Some ''mine'' \<and>
     file_at fs2' ''local'' (usage_file ''a'') = Some ''other'' \<and>
     (\<forall>d n. (d, n) \<noteq> (''local'', usage_file ''a'') \<longrightarrow> file_at fs2' d n = file_at fs' d n)"
proof -
  let ?fs = "[(''local'', [(''usage-a.json'', ''mine'')]), (''cloud'', [(''usage-a.json'', ''stale'')])]"
  let ?fs2 = "[(''local'', [(''usage-a.json'', ''other'')]), (''cloud'', [(''usage-a.json'', ''stale'')])]"
  have h: "\<forall>d n. (d, n) \<noteq> (''local'', usage_file ''a'') \<longrightarrow> file_at ?fs2 d n = file_at ?fs d n"
    by (simp add: file_at_def usage_file_def)
  have v: "file_at ?fs ''local'' (usage_file ''a'') = Some ''mine''"
    "file_at ?fs2 ''local'' (usage_file ''a'') = Some ''other''"
    by (simp_all add: file_at_def usage_file_def)
  from pull_self_exclusion[OF h, of "\<lambda>s. if s = ''junk'' then None else Some s" "''cloud''"]
  show ?thesis unfolding v .
qed

text \<open>
  Claim C6 (corrupt-peer isolation on pull). The shared directory holds the file of a
  peer \<open>b\<close> (not the caller \<open>m\<close>) whose content parses, and a file \<open>bad\<close> matching
  \<^verbatim>\<open>usage-*.json\<close> whose content does not parse. Then \<open>syncFromCloud\<close> returns without
  error, the local directory holds \<open>b\<close>'s file with the shared content, the local entry
  named \<open>bad\<close> is as before the call (none is created), and every peer file of the shared
  directory that parses has been copied to the local directory.
\<close>

theorem pull_corrupt_peer_isolation:
  assumes "file_at fs c (usage_file b) = Some good" and "parse good \<noteq> None" and "b \<noteq> m"
    and "file_at fs c bad = Some junk" and "parse junk = None"
    and "prefix ''usage-'' bad" and "suffix ''.json'' bad"
  shows "\<exists>fs'. syncFromCloud parse fs l c m = Inr fs' \<and>
           file_at fs' l (usage_file b) = Some good \<and>
           file_at fs' l bad = file_at fs l bad \<and>
           (\<forall>n x. prefix ''usage-'' n \<and> suffix ''.json'' n \<and> n \<noteq> usage_file m \<and>
                  file_at fs c n = Some x \<and> parse x \<noteq> None \<longrightarrow> file_at fs' l n = Some x)"
proof -
  obtain fs' where r: "syncFromCloud parse fs l c m = Inr fs'" and
    f: "\<forall>d n. file_at fs' d n =
        (if d = l \<and> prefix ''usage-'' n \<and> suffix ''.json'' n \<and> n \<noteq> usage_file m \<and>
            (\<exists>x. file_at fs c n = Some x \<and> parse x \<noteq> None)
         then file_at fs c n else file_at fs d n)"
    using syncFromCloud_spec[of parse fs l c m] by blast
  have bm: "usage_file b \<noteq> usage_file m"
    using assms(3) by (simp add: usage_file_inj)
  have good: "file_at fs' l (usage_file b) = Some good"
    using f assms(1,2) bm usage_file_pattern[of b] by simp
  have bad: "file_at fs' l bad = file_at fs l bad"
    using f assms(4,5) by simp
  have others: "\<forall>n x. prefix ''usage-'' n \<and> suffix ''.json'' n \<and> n \<noteq> usage_file m \<and>
                  file_at fs c n = Some x \<and> parse x \<noteq> None \<longrightarrow> file_at fs' l n = Some x"
    using f by auto
  from r good bad others show ?thesis by blast
qed

theorem pull_corrupt_peer_isolation_witness:
  "\<exists>fs'. syncFromCloud (\<lambda>s. if s = ''not valid json {{{'' then None else Some s)
            [(''local'', []),
             (''cloud'', [(''usage-b.json'', ''{s3}''), (''usage-corrupt.json'', ''not valid json {{{'')])]
            ''local'' ''cloud'' ''a'' = Inr fs' \<and>
          file_at fs' ''local'' (usage_file ''b'') = Some ''{s3}'' \<and>
          file_at fs' ''local'' ''usage-corrupt.json'' = None"
proof -
  let ?parse = "\<lambda>s. if s = ''not valid json {{{'' then None else Some s"
  let ?fs = "[(''local'', []),
             (''cloud'', [(''usage-b.json'', ''{s3}''), (''usage-corrupt.json'', ''not valid json {{{'')])]"
  have h1: "file_at ?fs ''cloud'' (usage_file ''b'') = Some ''{s3}''"
    by (simp add: file_at_def usage_file_def)
  have h2: "?parse ''{s3}'' \<noteq> None" by simp
  have h3: "''b'' \<noteq> ''a''" by simp
  have h4: "file_at ?fs ''cloud'' ''usage-corrupt.json'' = Some ''not valid json {{{''"
    by (simp add: file_at_def)
  have h5: "?parse ''not valid json {{{'' = None" by simp
  have h6: "prefix ''usage-'' ''usage-corrupt.json''" by simp
  have h7: "suffix ''.json'' ''usage-corrupt.json''" by (simp add: suffix_to_prefix)
  have none: "file_at ?fs ''local'' ''usage-corrupt.json'' = None"
    by (simp add: file_at_def)
  from pull_corrupt_peer_isolation[OF h1 h2 h3 h4 h5 h6 h7, of "''local''"] none
  show ?thesis by auto
qed

section \<open>Properties of the merge loop\<close>

lemma set_property_own_other:
  "j \<noteq> i \<Longrightarrow> fmlookup (own (set_property obj i r)) j = fmlookup (own obj) j"
  by (simp add: set_property_def)

lemma set_property_own_same:
  "fmlookup (own (set_property obj i r)) i = Some r \<or>
   (i = ''__proto__'' \<and> fmlookup (own (set_property obj i r)) i = None \<and>
    fmlookup (own obj) i = None)"
  by (auto simp: set_property_def)

lemma set_property_plain:
  "i \<noteq> ''__proto__'' \<Longrightarrow> set_property obj i r = obj\<lparr>own := fmupd i r (own obj)\<rparr>"
  by (simp add: set_property_def)

lemma set_property_dom_mono: "fmdom (own obj) |\<subseteq>| fmdom (own (set_property obj i r))"
  by (auto simp: set_property_def)

lemma set_property_dom_upper:
  "fmdom (own (set_property obj i r)) |\<subseteq>| finsert i (fmdom (own obj))"
  by (auto simp: set_property_def)

lemma merge_sessions_Cons:
  "\<exists>n' u'. merge_sessions clock k (s # ss) (obj, n, u) =
     merge_sessions clock (Suc k) ss
       (set_property obj (session_id s) (store_session (clock k) s), n', u') \<and>
     n' + u' = Suc (n + u)"
proof (cases "get_truthy obj (session_id s)")
  case True
  then show ?thesis by (intro exI[of _ n] exI[of _ "Suc u"]) (simp add: Let_def)
next
  case False
  then show ?thesis by (intro exI[of _ "Suc n"] exI[of _ u]) (simp add: Let_def)
qed

lemma merge_sessions_append:
  "merge_sessions clock k (xs @ ys) st =
     merge_sessions clock (k + length xs) ys (merge_sessions clock k xs st)"
proof (induction xs arbitrary: k st)
  case Nil
  then show ?case by simp
next
  case (Cons x xs)
  obtain obj n u where st: "st = (obj, n, u)" by (cases st)
  show ?case unfolding st by (simp add: Let_def Cons.IH)
qed

lemma merge_sessions_lookup_other:
  "i \<notin> session_id ` set ss \<Longrightarrow>
   fmlookup (own (fst (merge_sessions clock k ss (obj, n, u)))) i = fmlookup (own obj) i"
proof (induction ss arbitrary: k obj n u)
  case Nil
  then show ?case by simp
next
  case (Cons s ss)
  obtain n' u' where e: "merge_sessions clock k (s # ss) (obj, n, u) =
     merge_sessions clock (Suc k) ss
       (set_property obj (session_id s) (store_session (clock k) s), n', u')"
    using merge_sessions_Cons by blast
  from Cons.prems have ne: "i \<noteq> session_id s" and rest: "i \<notin> session_id ` set ss" by auto
  show ?case unfolding e using Cons.IH[OF rest] ne by (simp add: set_property_own_other)
qed

lemma merge_sessions_dom_mono:
  "fmdom (own obj) |\<subseteq>| fmdom (own (fst (merge_sessions clock k ss (obj, n, u))))"
proof (induction ss arbitrary: k obj n u)
  case Nil
  then show ?case by simp
next
  case (Cons s ss)
  obtain n' u' where e: "merge_sessions clock k (s # ss) (obj, n, u) =
     merge_sessions clock (Suc k) ss
       (set_property obj (session_id s) (store_session (clock k) s), n', u')"
    using merge_sessions_Cons by blast
  show ?case unfolding e
    using Cons.IH[where k = "Suc k" and obj = "set_property obj (session_id s) (store_session (clock k) s)"
        and n = n' and u = u']
      set_property_dom_mono[of obj "session_id s" "store_session (clock k) s"]
    by blast
qed

lemma merge_sessions_dom_upper:
  "fmdom (own (fst (merge_sessions clock k ss (obj, n, u)))) |\<subseteq>|
     fmdom (own obj) |\<union>| fset_of_list (map session_id ss)"
proof (induction ss arbitrary: k obj n u)
  case Nil
  then show ?case by simp
next
  case (Cons s ss)
  obtain n' u' where e: "merge_sessions clock k (s # ss) (obj, n, u) =
     merge_sessions clock (Suc k) ss
       (set_property obj (session_id s) (store_session (clock k) s), n', u')"
    using merge_sessions_Cons by blast
  show ?case unfolding e
    using Cons.IH[where k = "Suc k" and obj = "set_property obj (session_id s) (store_session (clock k) s)"
        and n = n' and u = u']
      set_property_dom_upper[of obj "session_id s" "store_session (clock k) s"]
    by auto
qed

lemma merge_sessions_sum:
  "fst (snd (merge_sessions clock k ss (obj, n, u))) +
     snd (snd (merge_sessions clock k ss (obj, n, u))) = n + u + length ss"
proof (induction ss arbitrary: k obj n u)
  case Nil
  then show ?case by simp
next
  case (Cons s ss)
  obtain n' u' where e: "merge_sessions clock k (s # ss) (obj, n, u) =
     merge_sessions clock (Suc k) ss
       (set_property obj (session_id s) (store_session (clock k) s), n', u')"
    and nu: "n' + u' = Suc (n + u)"
    using merge_sessions_Cons by blast
  show ?case unfolding e using Cons.IH[where k = "Suc k" and n = n' and u = u'] nu by simp
qed

lemma merge_sessions_last_wins:
  assumes "session_id s \<notin> session_id ` set post"
  shows "fmlookup (own (fst (merge_sessions clock k (pre @ s # post) (obj, n, u)))) (session_id s) =
           Some (store_session (clock (k + length pre)) s) \<or>
         (session_id s = ''__proto__'' \<and>
          fmlookup (own (fst (merge_sessions clock k (pre @ s # post) (obj, n, u)))) (session_id s) = None)"
proof -
  obtain obj1 n1 u1 where st: "merge_sessions clock k pre (obj, n, u) = (obj1, n1, u1)"
    by (cases "merge_sessions clock k pre (obj, n, u)")
  obtain n' u' where e: "merge_sessions clock (k + length pre) (s # post) (obj1, n1, u1) =
     merge_sessions clock (Suc (k + length pre)) post
       (set_property obj1 (session_id s) (store_session (clock (k + length pre)) s), n', u')"
    using merge_sessions_Cons by blast
  show ?thesis
    unfolding merge_sessions_append st e merge_sessions_lookup_other[OF assms]
    using set_property_own_same[of obj1 "session_id s" "store_session (clock (k + length pre)) s"]
    by blast
qed

text \<open>
  Two runs of the loop over the same sessions agree on whether \<^verbatim>\<open>'__proto__'\<close> ends
  as an own property, when they agree on it at the start and, as long as it is not one,
  on whether the setter is reached.
\<close>

lemma set_property_proto_agree:
  assumes "(fmlookup (own a) ''__proto__'' = None) = (fmlookup (own b) ''__proto__'' = None)"
    and "fmlookup (own a) ''__proto__'' = None \<longrightarrow> reaches_proto_setter a = reaches_proto_setter b"
  shows "(fmlookup (own (set_property a (session_id s) (store_session t s))) ''__proto__'' = None) =
         (fmlookup (own (set_property b (session_id s) (store_session t' s))) ''__proto__'' = None) \<and>
         (fmlookup (own (set_property a (session_id s) (store_session t s))) ''__proto__'' = None \<longrightarrow>
          reaches_proto_setter (set_property a (session_id s) (store_session t s)) =
          reaches_proto_setter (set_property b (session_id s) (store_session t' s)))"
  using assms
  by (auto simp: set_property_def reaches_proto_setter_def stored_property_def store_session_def)

lemma merge_sessions_proto_agree:
  assumes "(fmlookup (own a) ''__proto__'' = None) = (fmlookup (own b) ''__proto__'' = None)"
    and "fmlookup (own a) ''__proto__'' = None \<longrightarrow> reaches_proto_setter a = reaches_proto_setter b"
  shows "(fmlookup (own (fst (merge_sessions c1 k1 ss (a, n1, u1)))) ''__proto__'' = None) =
         (fmlookup (own (fst (merge_sessions c2 k2 ss (b, n2, u2)))) ''__proto__'' = None)"
  using assms
proof (induction ss arbitrary: a b k1 k2 n1 n2 u1 u2)
  case Nil
  then show ?case by simp
next
  case (Cons s ss)
  obtain n1' u1' where e1: "merge_sessions c1 k1 (s # ss) (a, n1, u1) =
     merge_sessions c1 (Suc k1) ss
       (set_property a (session_id s) (store_session (c1 k1) s), n1', u1')"
    using merge_sessions_Cons by blast
  obtain n2' u2' where e2: "merge_sessions c2 k2 (s # ss) (b, n2, u2) =
     merge_sessions c2 (Suc k2) ss
       (set_property b (session_id s) (store_session (c2 k2) s), n2', u2')"
    using merge_sessions_Cons by blast
  from set_property_proto_agree[OF Cons.prems, of s "c1 k1" "c2 k2"]
  show ?case unfolding e1 e2 by (intro Cons.IH) blast+
qed

section \<open>Properties of the record store\<close>

lemma sync_data_sessions:
  "sessions (sync_data clock existing incoming) =
     own (fst (merge_sessions clock 0 incoming (\<lparr>own = sessions existing, proto = None\<rparr>, 0, 0)))"
  by (simp add: sync_data_def split: prod.splits)

lemma sync_data_syncs:
  "syncs (sync_data clock existing incoming) =
     syncs existing @
       [\<lparr>timestamp = clock (length incoming),
         newSessions = fst (snd (merge_sessions clock 0 incoming
                                   (\<lparr>own = sessions existing, proto = None\<rparr>, 0, 0))),
         updatedSessions = snd (snd (merge_sessions clock 0 incoming
                                       (\<lparr>own = sessions existing, proto = None\<rparr>, 0, 0))),
         totalSessions = fcard (fmdom (sessions (sync_data clock existing incoming)))\<rparr>]"
  by (simp add: sync_data_def split: prod.splits)

lemma sessions_empty_recordset: "sessions empty_recordset = fmempty"
  by (simp add: empty_recordset_def)

lemma last_occurrence:
  assumes "i \<in> session_id ` set incoming"
  obtains pre s post where "incoming = pre @ s # post" and "session_id s = i"
    and "session_id s \<notin> session_id ` set post"
proof -
  from assms have "i \<in> set (map session_id incoming)" by simp
  then obtain ys zs where dec: "map session_id incoming = ys @ i # zs" and notin: "i \<notin> set zs"
    using split_list_last[of i "map session_id incoming"] by blast
  from dec obtain pre s post where inc: "incoming = pre @ s # post"
    and i: "i = session_id s" and zs: "zs = map session_id post"
    unfolding map_eq_append_conv map_eq_Cons_conv by blast
  from notin zs i have "session_id s \<notin> session_id ` set post" by simp
  with inc i that show thesis by blast
qed

text \<open>
  Claim C5 (idempotent merge on content). Merge a sequence into the empty record set,
  then merge the same sequence into the result. After the second merge the stored
  sessions are those after the first in every field but \<open>syncedAt\<close>: the two maps are
  equal once every \<open>syncedAt\<close> is overwritten with one and the same value. Each
  \<open>syncedAt\<close> after the second merge is a reading of the clock during that merge.
\<close>

theorem merge_idempotent_content:
  "fmmap (syncedAt_update (\<lambda>_. t))
     (sessions (sync_data clock2 (sync_data clock1 empty_recordset incoming) incoming)) =
   fmmap (syncedAt_update (\<lambda>_. t)) (sessions (sync_data clock1 empty_recordset incoming)) \<and>
   (\<forall>i r. fmlookup (sessions (sync_data clock2 (sync_data clock1 empty_recordset incoming) incoming)) i
            = Some r \<longrightarrow> (\<exists>k < length incoming. syncedAt r = clock2 k))"
proof -
  define m1 :: "(string, 'a stored) fmap"
    where "m1 = own (fst (merge_sessions clock1 0 incoming (\<lparr>own = fmempty, proto = None\<rparr>, 0, 0)))"
  define m2 where "m2 = own (fst (merge_sessions clock2 0 incoming (\<lparr>own = m1, proto = None\<rparr>, 0, 0)))"
  have s1: "sessions (sync_data clock1 empty_recordset incoming) = m1"
    unfolding sync_data_sessions sessions_empty_recordset m1_def ..
  have s2: "sessions (sync_data clock2 (sync_data clock1 empty_recordset incoming) incoming) = m2"
    unfolding sync_data_sessions[of clock2] s1 m2_def ..
  have out1: "fmlookup m1 i = None" if "i \<notin> session_id ` set incoming" for i
    unfolding m1_def using merge_sessions_lookup_other[OF that] by simp
  have out2: "fmlookup m2 i = None" if "i \<notin> session_id ` set incoming" for i
    unfolding m2_def using merge_sessions_lookup_other[OF that] out1[OF that] by simp
  have keep: "fmlookup m1 i \<noteq> None \<Longrightarrow> fmlookup m2 i \<noteq> None" for i
  proof -
    assume "fmlookup m1 i \<noteq> None"
    then have "i |\<in>| fmdom m1" by (simp add: fmlookup_dom_iff)
    moreover have "fmdom m1 |\<subseteq>| fmdom m2"
      unfolding m2_def
      using merge_sessions_dom_mono[of "\<lparr>own = m1, proto = None\<rparr>" clock2 0 incoming 0 0] by simp
    ultimately have "i |\<in>| fmdom m2" by blast
    then show "fmlookup m2 i \<noteq> None" by (simp add: fmlookup_dom_iff)
  qed
  have lose: "fmlookup m1 ''__proto__'' = None \<Longrightarrow> fmlookup m2 ''__proto__'' = None"
  proof -
    assume none: "fmlookup m1 ''__proto__'' = None"
    have "(fmlookup (own (fst (merge_sessions clock1 0 incoming
              (\<lparr>own = fmempty, proto = None\<rparr>, 0, 0)))) ''__proto__'' = None) =
          (fmlookup (own (fst (merge_sessions clock2 0 incoming
              (\<lparr>own = m1, proto = None\<rparr>, 0, 0)))) ''__proto__'' = None)"
      by (rule merge_sessions_proto_agree) (simp_all add: none reaches_proto_setter_def)
    with none show ?thesis unfolding m1_def[symmetric] m2_def[symmetric] by simp
  qed
  have both: "(fmlookup m1 (session_id s) = None \<and> fmlookup m2 (session_id s) = None) \<or>
      (fmlookup m1 (session_id s) = Some (store_session (clock1 (length pre)) s) \<and>
       fmlookup m2 (session_id s) = Some (store_session (clock2 (length pre)) s))"
    if inc: "incoming = pre @ s # post" and last: "session_id s \<notin> session_id ` set post"
    for pre s post
  proof -
    have l1: "fmlookup m1 (session_id s) = Some (store_session (clock1 (length pre)) s) \<or>
        (session_id s = ''__proto__'' \<and> fmlookup m1 (session_id s) = None)"
      unfolding m1_def inc
      using merge_sessions_last_wins[OF last, of clock1 0 pre] by simp
    have l2: "fmlookup m2 (session_id s) = Some (store_session (clock2 (length pre)) s) \<or>
        (session_id s = ''__proto__'' \<and> fmlookup m2 (session_id s) = None)"
      unfolding m2_def inc
      using merge_sessions_last_wins[OF last, of clock2 0 pre] by simp
    from l1 l2 keep[of "session_id s"] lose show ?thesis by auto
  qed
  have eq: "map_option (syncedAt_update (\<lambda>_. t)) (fmlookup m2 i) =
      map_option (syncedAt_update (\<lambda>_. t)) (fmlookup m1 i)" for i
  proof (cases "i \<in> session_id ` set incoming")
    case False
    then show ?thesis by (simp add: out1 out2)
  next
    case True
    then obtain pre s post where inc: "incoming = pre @ s # post" and i: "session_id s = i"
      and last: "session_id s \<notin> session_id ` set post"
      by (rule last_occurrence)
    from both[OF inc last] show ?thesis unfolding i[symmetric]
      by (auto simp: store_session_def)
  qed
  have first: "fmmap (syncedAt_update (\<lambda>_. t)) m2 = fmmap (syncedAt_update (\<lambda>_. t)) m1"
    by (rule fmap_ext) (simp add: eq)
  have second: "\<forall>i r. fmlookup m2 i = Some r \<longrightarrow> (\<exists>k < length incoming. syncedAt r = clock2 k)"
  proof (intro allI impI)
    fix i r
    assume look: "fmlookup m2 i = Some r"
    then have "i \<in> session_id ` set incoming" using out2[of i] by auto
    then obtain pre s post where inc: "incoming = pre @ s # post" and i: "session_id s = i"
      and last: "session_id s \<notin> session_id ` set post"
      by (rule last_occurrence)
    from both[OF inc last] look have "r = store_session (clock2 (length pre)) s"
      unfolding i by auto
    then have "syncedAt r = clock2 (length pre)" by (simp add: store_session_def)
    moreover have "length pre < length incoming" by (simp add: inc)
    ultimately show "\<exists>k < length incoming. syncedAt r = clock2 k" by blast
  qed
  from first second show ?thesis unfolding s1 s2 by blast
qed

theorem merge_idempotent_content_witness:
  "fmlookup (sessions (sync_data (\<lambda>k. ''t2'')
       (sync_data (\<lambda>k. ''t1'') empty_recordset
          [\<lparr>sessionId = Str ''r'', id_field = Undefined, projectPath = Str ''/p'',
            startTime = Undefined, other = [] :: (string \<times> int json) list\<rparr>])
       [\<lparr>sessionId = Str ''r'', id_field = Undefined, projectPath = Str ''/p'',
         startTime = Undefined, other = [] :: (string \<times> int json) list\<rparr>])) ''r'' =
     Some (store_session ''t2''
        \<lparr>sessionId = Str ''r'', id_field = Undefined, projectPath = Str ''/p'',
         startTime = Undefined, other = [] :: (string \<times> int json) list\<rparr>) \<and>
   syncedAt (store_session ''t2''
        \<lparr>sessionId = Str ''r'', id_field = Undefined, projectPath = Str ''/p'',
         startTime = Undefined, other = [] :: (string \<times> int json) list\<rparr>) = ''t2'' \<and>
   fmmap (syncedAt_update (\<lambda>_. ''''))
     (sessions (sync_data (\<lambda>k. ''t2'')
       (sync_data (\<lambda>k. ''t1'') empty_recordset
          [\<lparr>sessionId = Str ''r'', id_field = Undefined, projectPath = Str ''/p'',
            startTime = Undefined, other = [] :: (string \<times> int json) list\<rparr>])
       [\<lparr>sessionId = Str ''r'', id_field = Undefined, projectPath = Str ''/p'',
         startTime = Undefined, other = [] :: (string \<times> int json) list\<rparr>])) =
   fmmap (syncedAt_update (\<lambda>_. ''''))
     (sessions (sync_data (\<lambda>k. ''t1'') empty_recordset
          [\<lparr>sessionId = Str ''r'', id_field = Undefined, projectPath = Str ''/p'',
            startTime = Undefined, other = [] :: (string \<times> int json) list\<rparr>]))"
proof -
  let ?R = "\<lparr>sessionId = Str ''r'', id_field = Undefined, projectPath = Str ''/p'',
              startTime = Undefined, other = [] :: (string \<times> int json) list\<rparr>"
  have look: "fmlookup (sessions (sync_data (\<lambda>k. ''t2'')
       (sync_data (\<lambda>k. ''t1'') empty_recordset [?R]) [?R])) ''r'' = Some (store_session ''t2'' ?R)"
    by (simp add: sync_data_def empty_recordset_def session_id_def Let_def get_truthy_def
          set_property_def Object_prototype_properties_def)
  have at: "syncedAt (store_session ''t2'' ?R) = ''t2''"
    by (simp add: store_session_def)
  have same: "fmmap (syncedAt_update (\<lambda>_. ''''))
      (sessions (sync_data (\<lambda>k. ''t2'') (sync_data (\<lambda>k. ''t1'') empty_recordset [?R]) [?R])) =
    fmmap (syncedAt_update (\<lambda>_. '''')) (sessions (sync_data (\<lambda>k. ''t1'') empty_recordset [?R]))"
    using merge_idempotent_content[of "''''" "\<lambda>k. ''t2''" "\<lambda>k. ''t1''" "[?R]"]
    by (rule conjunct1)
  show ?thesis by (intro conjI look at same)
qed

text \<open>
  For identifiers that name no property of \<^verbatim>\<open>Object.prototype\<close> the object behaves as
  the map of its own properties: the prototype is never replaced, the identifiers after
  the loop are those before and those of the sessions, and the new count is the number
  of distinct identifiers that were not there before.
\<close>

lemma merge_sessions_plain_ids:
  assumes "session_id ` set ss \<inter> set Object_prototype_properties = {}" and "proto obj = None"
  shows "proto (fst (merge_sessions clock k ss (obj, n, u))) = None \<and>
         fst (snd (merge_sessions clock k ss (obj, n, u))) =
           n + fcard (fset_of_list (map session_id ss) |-| fmdom (own obj))"
  using assms
proof (induction ss arbitrary: k obj n u)
  case Nil
  then show ?case by simp
next
  case (Cons s ss)
  let ?i = "session_id s"
  let ?K = "fset_of_list (map session_id ss)"
  let ?obj' = "obj\<lparr>own := fmupd ?i (store_session (clock k) s) (own obj)\<rparr>"
  from Cons.prems(1) have plain: "?i \<notin> set Object_prototype_properties"
    and rest: "session_id ` set ss \<inter> set Object_prototype_properties = {}"
    by auto
  from plain have np: "?i \<noteq> ''__proto__''"
    by (auto simp: Object_prototype_properties_def)
  have set: "set_property obj ?i (store_session (clock k) s) = ?obj'"
    using np by (rule set_property_plain)
  have get: "get_truthy obj ?i = (fmlookup (own obj) ?i \<noteq> None)"
    using plain Cons.prems(2) by (simp add: get_truthy_def split: option.splits)
  have p': "proto ?obj' = None" using Cons.prems(2) by simp
  show ?case
  proof (cases "fmlookup (own obj) ?i")
    case None
    then have notin: "?i |\<notin>| fmdom (own obj)" by (simp add: fmdom_notI)
    have "finsert ?i ?K |-| fmdom (own obj) = finsert ?i (?K |-| finsert ?i (fmdom (own obj)))"
      using notin by auto
    moreover have "?i |\<notin>| ?K |-| finsert ?i (fmdom (own obj))" by simp
    ultimately have card: "fcard (finsert ?i ?K |-| fmdom (own obj)) =
        Suc (fcard (?K |-| finsert ?i (fmdom (own obj))))"
      by (simp add: fcard_finsert_disjoint)
    from None get have "merge_sessions clock k (s # ss) (obj, n, u) =
        merge_sessions clock (Suc k) ss (?obj', Suc n, u)"
      by (simp add: Let_def set)
    with Cons.IH[OF rest p', of "Suc k" "Suc n" u] card show ?thesis by simp
  next
    case (Some r)
    then have isin: "?i |\<in>| fmdom (own obj)" by (simp add: fmdomI)
    have card: "finsert ?i ?K |-| fmdom (own obj) = ?K |-| finsert ?i (fmdom (own obj))"
      using isin by auto
    from Some get have "merge_sessions clock k (s # ss) (obj, n, u) =
        merge_sessions clock (Suc k) ss (?obj', n, Suc u)"
      by (simp add: Let_def set)
    with Cons.IH[OF rest p', of "Suc k" n "Suc u"] card show ?thesis by simp
  qed
qed

lemma merge_sessions_dom:
  assumes "''__proto__'' \<notin> session_id ` set ss \<or> ''__proto__'' |\<in>| fmdom (own obj)"
  shows "fmdom (own (fst (merge_sessions clock k ss (obj, n, u)))) =
           fmdom (own obj) |\<union>| fset_of_list (map session_id ss)"
  using assms
proof (induction ss arbitrary: k obj n u)
  case Nil
  then show ?case by simp
next
  case (Cons s ss)
  let ?obj' = "set_property obj (session_id s) (store_session (clock k) s)"
  obtain n' u' where e: "merge_sessions clock k (s # ss) (obj, n, u) =
     merge_sessions clock (Suc k) ss (?obj', n', u')"
    using merge_sessions_Cons by blast
  have dom': "fmdom (own ?obj') = finsert (session_id s) (fmdom (own obj))"
    using Cons.prems by (auto simp: set_property_def fmlookup_dom_iff)
  have "''__proto__'' \<notin> session_id ` set ss \<or> ''__proto__'' |\<in>| fmdom (own ?obj')"
    using Cons.prems dom' by auto
  from Cons.IH[OF this, of "Suc k" n' u'] dom' show ?case unfolding e by auto
qed

text \<open>
  For such identifiers the counts, the kept history and the treatment of an identifier
  that occurs again in one batch are as one expects of a map.
\<close>

lemma new_updated_counting_plain_ids:
  assumes "session_id R |\<in>| fmdom (sessions existing)"
    and "session_id S |\<notin>| fmdom (sessions existing)"
    and "session_id S \<notin> set Object_prototype_properties"
  shows "syncs (sync_data clock existing [R, S]) =
           syncs existing @
             [\<lparr>timestamp = clock 2, newSessions = 1, updatedSessions = 1,
               totalSessions = fcard (fmdom (sessions (sync_data clock existing [R, S])))\<rparr>] \<and>
         fcard (fmdom (sessions (sync_data clock existing [R, S]))) =
           Suc (fcard (fmdom (sessions existing)))"
proof -
  from assms have ne: "session_id S \<noteq> session_id R" by auto
  from assms(1) obtain r where r: "fmlookup (sessions existing) (session_id R) = Some r"
    by (auto simp: fmlookup_dom_iff)
  from assms(2) have s: "fmlookup (sessions existing) (session_id S) = None"
    by (simp add: fmdom_notD)
  from assms(3) have np: "session_id S \<noteq> ''__proto__''"
    by (auto simp: Object_prototype_properties_def)
  have m: "merge_sessions clock 0 [R, S] (\<lparr>own = sessions existing, proto = None\<rparr>, 0, 0) =
      (\<lparr>own = fmupd (session_id S) (store_session (clock 1) S)
                (fmupd (session_id R) (store_session (clock 0) R) (sessions existing)),
        proto = None\<rparr>, 1, 1)"
    using r s ne np assms(3) by (simp add: Let_def get_truthy_def set_property_def)
  have card: "fcard (fmdom (sessions (sync_data clock existing [R, S]))) =
      Suc (fcard (fmdom (sessions existing)))"
    unfolding sync_data_sessions m using assms ne by (simp add: fcard_finsert_if)
  show ?thesis
    unfolding sync_data_syncs m using card by (simp add: numeral_2_eq_2)
qed

lemma merge_keeps_history_plain_ids:
  "fmdom (sessions existing) |\<subseteq>| fmdom (sessions (sync_data clock existing incoming)) \<and>
   (\<forall>i. i \<notin> session_id ` set incoming \<longrightarrow>
        fmlookup (sessions (sync_data clock existing incoming)) i = fmlookup (sessions existing) i) \<and>
   (''__proto__'' \<notin> session_id ` set incoming \<or> ''__proto__'' |\<in>| fmdom (sessions existing) \<longrightarrow>
      fcard (fmdom (sessions (sync_data clock existing incoming))) =
        fcard (fmdom (sessions existing) |\<union>| fset_of_list (map session_id incoming)) \<and>
      totalSessions (last (syncs (sync_data clock existing incoming))) =
        fcard (fmdom (sessions existing) |\<union>| fset_of_list (map session_id incoming)))"
proof (intro conjI impI)
  show "fmdom (sessions existing) |\<subseteq>| fmdom (sessions (sync_data clock existing incoming))"
    unfolding sync_data_sessions
    using merge_sessions_dom_mono[of "\<lparr>own = sessions existing, proto = None\<rparr>"] by simp
  show "\<forall>i. i \<notin> session_id ` set incoming \<longrightarrow>
        fmlookup (sessions (sync_data clock existing incoming)) i = fmlookup (sessions existing) i"
    unfolding sync_data_sessions by (simp add: merge_sessions_lookup_other)
  assume h: "''__proto__'' \<notin> session_id ` set incoming \<or> ''__proto__'' |\<in>| fmdom (sessions existing)"
  have dom: "fmdom (sessions (sync_data clock existing incoming)) =
      fmdom (sessions existing) |\<union>| fset_of_list (map session_id incoming)"
    unfolding sync_data_sessions
    using merge_sessions_dom[of incoming "\<lparr>own = sessions existing, proto = None\<rparr>"] h by simp
  show "fcard (fmdom (sessions (sync_data clock existing incoming))) =
        fcard (fmdom (sessions existing) |\<union>| fset_of_list (map session_id incoming))"
    by (simp add: dom)
  show "totalSessions (last (syncs (sync_data clock existing incoming))) =
        fcard (fmdom (sessions existing) |\<union>| fset_of_list (map session_id incoming))"
    unfolding sync_data_syncs by (simp add: dom)
qed

lemma batch_duplicates_plain_ids:
  "newSessions (last (syncs (sync_data clock existing incoming))) +
     updatedSessions (last (syncs (sync_data clock existing incoming))) = length incoming \<and>
   (session_id ` set incoming \<inter> set Object_prototype_properties = {} \<longrightarrow>
      newSessions (last (syncs (sync_data clock existing incoming))) =
        fcard (fset_of_list (map session_id incoming) |-| fmdom (sessions existing))) \<and>
   (\<forall>pre s post. incoming = pre @ s # post \<and> session_id s \<notin> session_id ` set post \<and>
        session_id s \<noteq> ''__proto__'' \<longrightarrow>
      fmlookup (sessions (sync_data clock existing incoming)) (session_id s) =
        Some (store_session (clock (length pre)) s))"
proof (intro conjI impI allI)
  show "newSessions (last (syncs (sync_data clock existing incoming))) +
     updatedSessions (last (syncs (sync_data clock existing incoming))) = length incoming"
    using merge_sessions_sum[of clock 0 incoming "\<lparr>own = sessions existing, proto = None\<rparr>" 0 0]
    by (simp add: sync_data_syncs)
next
  assume "session_id ` set incoming \<inter> set Object_prototype_properties = {}"
  from merge_sessions_plain_ids[OF this, of "\<lparr>own = sessions existing, proto = None\<rparr>" clock 0 0 0]
  show "newSessions (last (syncs (sync_data clock existing incoming))) =
        fcard (fset_of_list (map session_id incoming) |-| fmdom (sessions existing))"
    by (simp add: sync_data_syncs)
next
  fix pre s post
  assume a: "incoming = pre @ s # post \<and> session_id s \<notin> session_id ` set post \<and>
        session_id s \<noteq> ''__proto__''"
  then have nl: "session_id s \<notin> session_id ` set post" and np: "session_id s \<noteq> ''__proto__''"
    and inc: "incoming = pre @ s # post" by simp_all
  show "fmlookup (sessions (sync_data clock existing incoming)) (session_id s) =
        Some (store_session (clock (length pre)) s)"
    unfolding sync_data_sessions inc
    using merge_sessions_last_wins[OF nl, of clock 0 pre "\<lparr>own = sessions existing, proto = None\<rparr>" 0 0]
      np by simp
qed

text \<open>
  Claim C4 (new/updated counting) fails of the code for an identifier that names a
  property of \<^verbatim>\<open>Object.prototype\<close>. The existing record set holds \<open>r\<close>; the incoming
  sequence is \<open>R\<close> with identifier \<open>r\<close> and \<open>S\<close> with the absent identifier
  \<^verbatim>\<open>constructor\<close>. The test \<^verbatim>\<open>!sessions[id]\<close> of line 174 finds the inherited property,
  so the sync event reports 0 new and 2 updated sessions, where the claim has 1 and 1;
  the total, 2, is the number of identifiers after the merge.
\<close>

theorem new_updated_counting_inherited_id:
  "syncs (sync_data (\<lambda>k. ''t'')
            \<lparr>sessions = fmupd ''r''
               (store_session ''t0''
                  \<lparr>sessionId = Str ''r'', id_field = Undefined, projectPath = Str ''/p'',
                   startTime = Undefined, other = []\<rparr>) fmempty,
             syncs = [], lastSync = None\<rparr>
            [\<lparr>sessionId = Str ''r'', id_field = Undefined, projectPath = Str ''/p'',
              startTime = Undefined, other = []\<rparr>,
             \<lparr>sessionId = Str ''constructor'', id_field = Undefined, projectPath = Str ''/q'',
              startTime = Undefined, other = [] :: (string \<times> int json) list\<rparr>]) =
     [\<lparr>timestamp = ''t'', newSessions = 0, updatedSessions = 2, totalSessions = 2\<rparr>]"
  by (simp add: sync_data_def session_id_def Let_def get_truthy_def set_property_def
        Object_prototype_properties_def fcard_finsert_if)

text \<open>
  Claim C7 (merge never loses history) fails of the code for the incoming identifier
  \<^verbatim>\<open>__proto__\<close>. Merged into the empty record set, the session is not stored: the
  assignment of line 184 sets the prototype of \<^verbatim>\<open>sessions\<close> and creates no property.
  The merged set has no identifier and the reported total is 0, where the union of the
  existing and the incoming identifiers has one element.
\<close>

theorem merge_drops_proto_id:
  "sessions (sync_data (\<lambda>k. ''t'') empty_recordset
      [\<lparr>sessionId = Str ''__proto__'', id_field = Undefined, projectPath = Str ''/p'',
        startTime = Undefined, other = [] :: (string \<times> int json) list\<rparr>]) = fmempty \<and>
   syncs (sync_data (\<lambda>k. ''t'') empty_recordset
      [\<lparr>sessionId = Str ''__proto__'', id_field = Undefined, projectPath = Str ''/p'',
        startTime = Undefined, other = [] :: (string \<times> int json) list\<rparr>]) =
     [\<lparr>timestamp = ''t'', newSessions = 0, updatedSessions = 1, totalSessions = 0\<rparr>] \<and>
   fcard (fmdom (sessions (empty_recordset :: int recordset)) |\<union>|
          fset_of_list (map session_id
            [\<lparr>sessionId = Str ''__proto__'', id_field = Undefined, projectPath = Str ''/p'',
              startTime = Undefined, other = [] :: (string \<times> int json) list\<rparr>])) = 1"
  by (simp add: sync_data_def empty_recordset_def session_id_def Let_def get_truthy_def
        set_property_def reaches_proto_setter_def Object_prototype_properties_def fcard_finsert_if)

text \<open>
  Claim C10 (duplicate identifiers within one batch) fails of the code for identifiers
  that name a property of \<^verbatim>\<open>Object.prototype\<close>. For a batch of two sessions with the
  identifier \<^verbatim>\<open>constructor\<close>, absent from the empty existing set, the first occurrence
  is counted as updated: 0 new and 2 updated are reported, where the claim has 1 and 1
  (the stored record is that of the second session). For a batch of two sessions with
  the identifier \<^verbatim>\<open>__proto__\<close> no record is stored, so no occurrence's data wins.
\<close>

theorem batch_duplicates_inherited_id:
  "syncs (sync_data (\<lambda>k. ''t'') empty_recordset
      [\<lparr>sessionId = Str ''constructor'', id_field = Undefined, projectPath = Str ''/first'',
        startTime = Undefined, other = []\<rparr>,
       \<lparr>sessionId = Str ''constructor'', id_field = Undefined, projectPath = Str ''/second'',
        startTime = Undefined, other = [] :: (string \<times> int json) list\<rparr>]) =
     [\<lparr>timestamp = ''t'', newSessions = 0, updatedSessions = 2, totalSessions = 1\<rparr>] \<and>
   fmlookup (sessions (sync_data (\<lambda>k. ''t'') empty_recordset
      [\<lparr>sessionId = Str ''constructor'', id_field = Undefined, projectPath = Str ''/first'',
        startTime = Undefined, other = []\<rparr>,
       \<lparr>sessionId = Str ''constructor'', id_field = Undefined, projectPath = Str ''/second'',
        startTime = Undefined, other = [] :: (string \<times> int json) list\<rparr>])) ''constructor'' =
     Some (store_session ''t''
        \<lparr>sessionId = Str ''constructor'', id_field = Undefined, projectPath = Str ''/second'',
         startTime = Undefined, other = []\<rparr>) \<and>
   syncs (sync_data (\<lambda>k. ''t'') empty_recordset
      [\<lparr>sessionId = Str ''__proto__'', id_field = Undefined, projectPath = Str ''/first'',
        startTime = Undefined, other = []\<rparr>,
       \<lparr>sessionId = Str ''__proto__'', id_field = Undefined, projectPath = Str ''/second'',
        startTime = Undefined, other = [] :: (string \<times> int json) list\<rparr>]) =
     [\<lparr>timestamp = ''t'', newSessions = 0, updatedSessions = 2, totalSessions = 0\<rparr>] \<and>
   sessions (sync_data (\<lambda>k. ''t'') empty_recordset
      [\<lparr>sessionId = Str ''__proto__'', id_field = Undefined, projectPath = Str ''/first'',
        startTime = Undefined, other = []\<rparr>,
       \<lparr>sessionId = Str ''__proto__'', id_field = Undefined, projectPath = Str ''/second'',
        startTime = Undefined, other = [] :: (string \<times> int json) list\<rparr>]) = fmempty"
  by (simp add: sync_data_def empty_recordset_def session_id_def Let_def get_truthy_def
        set_property_def reaches_proto_setter_def stored_property_def store_session_def
        Object_prototype_properties_def fcard_finsert_if)

lemma saveData_returns:
  "saveData stringify dd data m =
     Inr (Some ((case dd of None \<Rightarrow> (\<lambda>f. Missing) | Some files \<Rightarrow> files)
                  (getDataFile m := Contents (stringify data))))"
  by (simp add: saveData_def data_mkdirSync_def data_writeFileSync_def Let_def split: option.splits)

lemma sync_merges:
  "loadExistingData parse dd m = Inr existing \<Longrightarrow>
   runCcusage parse_output execSync = Some (Output (Some incoming)) \<Longrightarrow>
   sync parse stringify clock parse_output execSync dd m =
     Inr (with_machineId (sync_data clock existing incoming) m,
          Some ((case dd of None \<Rightarrow> (\<lambda>f. Missing) | Some files \<Rightarrow> files)
                  (getDataFile m := Contents (stringify (sync_data clock existing incoming)))))"
  by (simp add: sync_def Let_def saveData_returns)

lemma loadExistingData_cases:
  "loadExistingData parse dd m =
     (if m = [] then Inr empty_recordset
      else case dd of
        None \<Rightarrow> Inr empty_recordset
      | Some files \<Rightarrow>
          (case files (getDataFile m) of
             Missing \<Rightarrow> Inr empty_recordset
           | Unreadable \<Rightarrow> Inr empty_recordset
           | Contents c \<Rightarrow> (case parse c of None \<Rightarrow> Inr empty_recordset | Some r \<Rightarrow> Inr r)))"
  by (simp add: loadExistingData_def load_try_def data_existsSync_def data_readFileSync_def
        JSON_parse_def Let_def split: option.splits file_state.splits)

lemma loadExistingData_returns: "\<exists>r. loadExistingData parse dd m = Inr r"
  by (simp add: loadExistingData_cases split: option.splits file_state.splits)

lemma sync_returns: "\<exists>res dd'. sync parse stringify clock parse_output execSync dd m = Inr (res, dd')"
proof -
  obtain existing where l: "loadExistingData parse dd m = Inr existing"
    using loadExistingData_returns by blast
  show ?thesis
  proof (cases "runCcusage parse_output execSync")
    case None
    with l show ?thesis by (simp add: sync_def)
  next
    case (Some out)
    then show ?thesis
    proof (cases out)
      case (Output ss)
      with Some l show ?thesis
        by (cases ss) (simp_all add: sync_def Let_def saveData_returns)
    qed
  qed
qed

text \<open>
  Claim C8 (load falls back to empty). For a machine identifier (a non-empty token: the
  code takes the empty string for no identifier), \<open>loadExistingData\<close> returns the
  persisted record set when the data file is readable and parses. It returns the empty
  record set, with no sessions and no sync events, when the directory or the file is
  absent, the file is unreadable or its content does not parse, and also for the empty
  string. It never throws.
\<close>

theorem load_falls_back:
  "(m \<noteq> [] \<and> dd = Some files \<and> files (getDataFile m) = Contents c \<and> parse c = Some r \<longrightarrow>
      loadExistingData parse dd m = Inr r) \<and>
   (dd = None \<or>
    (\<exists>files. dd = Some files \<and>
       (files (getDataFile m) = Missing \<or> files (getDataFile m) = Unreadable \<or>
        (\<exists>c. files (getDataFile m) = Contents c \<and> parse c = None))) \<longrightarrow>
      loadExistingData parse dd m = Inr empty_recordset) \<and>
   (m = [] \<longrightarrow> loadExistingData parse dd m = Inr empty_recordset) \<and>
   (\<exists>r. loadExistingData parse dd m = Inr r) \<and>
   sessions (empty_recordset :: 'n recordset) = fmempty \<and>
   syncs (empty_recordset :: 'n recordset) = []"
proof (intro conjI)
  show "m \<noteq> [] \<and> dd = Some files \<and> files (getDataFile m) = Contents c \<and> parse c = Some r \<longrightarrow>
      loadExistingData parse dd m = Inr r"
    by (simp add: loadExistingData_cases)
  show "dd = None \<or>
    (\<exists>files. dd = Some files \<and>
       (files (getDataFile m) = Missing \<or> files (getDataFile m) = Unreadable \<or>
        (\<exists>c. files (getDataFile m) = Contents c \<and> parse c = None))) \<longrightarrow>
      loadExistingData parse dd m = Inr empty_recordset"
    by (auto simp: loadExistingData_cases)
  show "m = [] \<longrightarrow> loadExistingData parse dd m = Inr empty_recordset"
    by (simp add: loadExistingData_cases)
  show "\<exists>r. loadExistingData parse dd m = Inr r"
    by (rule loadExistingData_returns)
  show "sessions (empty_recordset :: 'n recordset) = fmempty"
    by (simp add: empty_recordset_def)
  show "syncs (empty_recordset :: 'n recordset) = []"
    by (simp add: empty_recordset_def)
qed

theorem load_falls_back_witness:
  "loadExistingData (\<lambda>c. if c = ''good'' then Some (empty_recordset\<lparr>lastSync := Some ''t''\<rparr>) else None)
      (Some ((\<lambda>f. Missing)(''usage-a.json'' := Contents ''good''))) ''a'' =
     Inr ((empty_recordset :: int recordset)\<lparr>lastSync := Some ''t''\<rparr>) \<and>
   loadExistingData (\<lambda>c. if c = ''good'' then Some (empty_recordset\<lparr>lastSync := Some ''t''\<rparr>) else None)
      (Some ((\<lambda>f. Missing)(''usage-a.json'' := Contents ''not valid json {{{''))) ''a'' =
     Inr (empty_recordset :: int recordset) \<and>
   loadExistingData (\<lambda>c. if c = ''good'' then Some (empty_recordset\<lparr>lastSync := Some ''t''\<rparr>) else None)
      (Some ((\<lambda>f. Missing)(''usage-a.json'' := Unreadable))) ''a'' =
     Inr (empty_recordset :: int recordset)"
proof -
  let ?parse = "\<lambda>c. if c = ''good'' then Some ((empty_recordset :: int recordset)\<lparr>lastSync := Some ''t''\<rparr>) else None"
  let ?good = "(\<lambda>f. Missing)(''usage-a.json'' := Contents ''good'')"
  let ?bad = "(\<lambda>f. Missing)(''usage-a.json'' := Contents ''not valid json {{{'')"
  let ?locked = "(\<lambda>f. Missing)(''usage-a.json'' := Unreadable)"
  have f: "getDataFile ''a'' = ''usage-a.json''" by (simp add: getDataFile_def usage_file_def)
  have h1: "''a'' \<noteq> [] \<and> Some ?good = Some ?good \<and> ?good (getDataFile ''a'') = Contents ''good'' \<and>
      ?parse ''good'' = Some (empty_recordset\<lparr>lastSync := Some ''t''\<rparr>)"
    by (simp add: f)
  have h2: "Some ?bad = None \<or>
    (\<exists>files. Some ?bad = Some files \<and>
       (files (getDataFile ''a'') = Missing \<or> files (getDataFile ''a'') = Unreadable \<or>
        (\<exists>c. files (getDataFile ''a'') = Contents c \<and> ?parse c = None)))"
    by (simp add: f)
  have h3: "Some ?locked = None \<or>
    (\<exists>files. Some ?locked = Some files \<and>
       (files (getDataFile ''a'') = Missing \<or> files (getDataFile ''a'') = Unreadable \<or>
        (\<exists>c. files (getDataFile ''a'') = Contents c \<and> ?parse c = None)))"
    by (simp add: f)
  from load_falls_back[of "''a''" "Some ?good" ?good "''good''" ?parse "empty_recordset\<lparr>lastSync := Some ''t''\<rparr>"] h1
  have c1: "loadExistingData ?parse (Some ?good) ''a'' = Inr (empty_recordset\<lparr>lastSync := Some ''t''\<rparr>)"
    by blast
  from load_falls_back[of "''a''" "Some ?bad" ?bad "''good''" ?parse "empty_recordset"] h2
  have c2: "loadExistingData ?parse (Some ?bad) ''a'' = Inr empty_recordset"
    by blast
  from load_falls_back[of "''a''" "Some ?locked" ?locked "''good''" ?parse "empty_recordset"] h3
  have c3: "loadExistingData ?parse (Some ?locked) ''a'' = Inr empty_recordset"
    by blast
  from c1 c2 c3 show ?thesis by blast
qed

text \<open>
  Claim C9, as amended. When the usage tool fails or its output does not parse,
  \<open>runCcusage\<close> returns \<^verbatim>\<open>null\<close>. When \<open>runCcusage\<close> returns \<^verbatim>\<open>null\<close> or an output
  without sessions, \<open>sync\<close> returns without error the loaded record set with the
  machine identifier added: the sessions, the sync events (none is appended) and
  \<open>lastSync\<close> are those loaded, and the data directory is left as it was.
\<close>

theorem missing_source_noop:
  "runCcusage parse_output (Inl e) = None \<and>
   (parse_output out = None \<longrightarrow> runCcusage parse_output (Inr out) = None) \<and>
   (runCcusage parse_output execSync = None \<or>
    runCcusage parse_output execSync = Some (Output None) \<longrightarrow>
      (\<exists>existing. loadExistingData parse dd m = Inr existing \<and>
         sync parse stringify clock parse_output execSync dd m =
           Inr (with_machineId existing m, dd) \<and>
         sessions (with_machineId existing m) = sessions existing \<and>
         syncs (with_machineId existing m) = syncs existing \<and>
         lastSync (with_machineId existing m) = lastSync existing \<and>
         machineId_field (with_machineId existing m) = m))"
proof (intro conjI impI)
  show "runCcusage parse_output (Inl e) = None"
    by (simp add: runCcusage_def)
  show "runCcusage parse_output (Inr out) = None" if "parse_output out = None"
    using that by (simp add: runCcusage_def JSON_parse_def)
  show "\<exists>existing. loadExistingData parse dd m = Inr existing \<and>
         sync parse stringify clock parse_output execSync dd m =
           Inr (with_machineId existing m, dd) \<and>
         sessions (with_machineId existing m) = sessions existing \<and>
         syncs (with_machineId existing m) = syncs existing \<and>
         lastSync (with_machineId existing m) = lastSync existing \<and>
         machineId_field (with_machineId existing m) = m"
    if cc: "runCcusage parse_output execSync = None \<or>
      runCcusage parse_output execSync = Some (Output None)"
  proof -
    obtain existing where l: "loadExistingData parse dd m = Inr existing"
      using loadExistingData_returns by blast
    from cc l have "sync parse stringify clock parse_output execSync dd m =
        Inr (with_machineId existing m, dd)"
      by (auto simp: sync_def Let_def)
    with l show ?thesis by (simp add: with_machineId_def)
  qed
qed

theorem missing_source_noop_witness:
  "sync (\<lambda>c. if c = ''good'' then Some (empty_recordset\<lparr>lastSync := Some ''t''\<rparr>) else None)
      (\<lambda>r. ''{}'') (\<lambda>k. ''now'') (\<lambda>c. None) (Inl ENOENT)
      (Some ((\<lambda>f. Missing)(''usage-a.json'' := Contents ''good''))) ''a'' =
     Inr (with_machineId ((empty_recordset :: int recordset)\<lparr>lastSync := Some ''t''\<rparr>) ''a'',
          Some ((\<lambda>f. Missing)(''usage-a.json'' := Contents ''good'')))"
proof -
  let ?parse = "\<lambda>c. if c = ''good'' then Some ((empty_recordset :: int recordset)\<lparr>lastSync := Some ''t''\<rparr>) else None"
  let ?dd = "Some ((\<lambda>f. Missing)(''usage-a.json'' := Contents ''good''))"
  let ?po = "\<lambda>c. None :: int ccusage_output option"
  have l: "loadExistingData ?parse ?dd ''a'' = Inr (empty_recordset\<lparr>lastSync := Some ''t''\<rparr>)"
    by (simp add: loadExistingData_cases getDataFile_def usage_file_def)
  have cc: "runCcusage ?po (Inl ENOENT) = None \<or> runCcusage ?po (Inl ENOENT) = Some (Output None)"
    by (simp add: runCcusage_def)
  from missing_source_noop[of ?po ENOENT "''x''" "Inl ENOENT" ?parse ?dd "''a''"
      "\<lambda>r. ''{}''" "\<lambda>k. ''now''"] cc l
  show ?thesis by auto
qed

text \<open>
  Claim C9 as stated fails: a cycle without data does not report as a cycle with zero
  sessions does. With an absent data directory and a usage tool that fails, \<open>sync\<close>
  returns the empty record set with no sync event and writes nothing; with a usage tool
  that returns an empty list of sessions it appends a sync event reporting 0 new, 0
  updated and 0 in total, and writes the file.
\<close>

theorem missing_source_appends_no_event:
  "sync (\<lambda>c. None) (\<lambda>r. ''{}'') (\<lambda>k. ''t'')
      (\<lambda>c. None :: int ccusage_output option) (Inl ENOENT) None ''a'' =
     Inr (\<lparr>sessions = fmempty, syncs = [], lastSync = None, machineId_field = ''a''\<rparr>, None) \<and>
   sync (\<lambda>c. None) (\<lambda>r. ''{}'') (\<lambda>k. ''t'')
      (\<lambda>c. Some (Output (Some []) :: int ccusage_output)) (Inr ''out'') None ''a'' =
     Inr (\<lparr>sessions = fmempty,
           syncs = [\<lparr>timestamp = ''t'', newSessions = 0, updatedSessions = 0, totalSessions = 0\<rparr>],
           lastSync = Some ''t'', machineId_field = ''a''\<rparr>,
          Some ((\<lambda>f. Missing)(''usage-a.json'' := Contents ''{}'')))"
  by (simp add: sync_def runCcusage_def JSON_parse_def loadExistingData_cases sync_data_def
        saveData_returns with_machineId_def empty_recordset_def getDataFile_def usage_file_def)

end
